theory Spec2Isabelle
  imports Main "HOL-Library.Word"
begin

unbundle bit_operations_syntax

section \<open>The scanner access library, as \<^verbatim>\<open>sane.c\<close> sees it\<close>

text \<open>
  \<^verbatim>\<open>sane.c\<close> talks to the scanner through the SANE library. The library is not part
  of the repository; its calls are modelled by a \<open>world\<close> that answers them from a script
  and logs every call. \<^verbatim>\<open>unsigned long\<close> is 64 bits wide (LP64). Option numbers,
  array indices and the element counts of \<^verbatim>\<open>struct sane_thread\<close> are never negative
  and are only compared and incremented: they are natural numbers.
\<close>

type_synonym ulong = "64 word"

type_synonym SANE_Handle = unit

datatype SANE_Status =
    SANE_STATUS_GOOD
  | SANE_STATUS_UNSUPPORTED
  | SANE_STATUS_CANCELLED
  | SANE_STATUS_DEVICE_BUSY
  | SANE_STATUS_INVAL
  | SANE_STATUS_EOF
  | SANE_STATUS_JAMMED
  | SANE_STATUS_NO_DOCS
  | SANE_STATUS_COVER_OPEN
  | SANE_STATUS_IO_ERROR
  | SANE_STATUS_NO_MEM
  | SANE_STATUS_ACCESS_DENIED

datatype SANE_Value_Type =
    SANE_TYPE_BOOL
  | SANE_TYPE_INT
  | SANE_TYPE_FIXED
  | SANE_TYPE_STRING
  | SANE_TYPE_BUTTON
  | SANE_TYPE_GROUP

text \<open>
  The fields of \<^verbatim>\<open>SANE_Option_Descriptor\<close> that \<^verbatim>\<open>sane.c\<close> reads. \<open>od_active\<close> is
  \<^verbatim>\<open>SANE_OPTION_IS_ACTIVE(odesc->cap)\<close>; \<open>od_name\<close> is \<open>None\<close> for a null name.
\<close>

record SANE_Option_Descriptor =
  od_name :: "string option"
  od_type :: SANE_Value_Type
  od_size :: int
  od_active :: bool

text \<open>
  What one \<^verbatim>\<open>sane_control_option(h, n, SANE_ACTION_GET_VALUE, buf, NULL)\<close> call answers:
  its status, the value an \<^verbatim>\<open>unsigned long\<close> at \<open>buf\<close> holds afterwards, and the bytes a
  character buffer at \<open>buf\<close> holds afterwards.
\<close>

record control_reply =
  reply_status :: SANE_Status
  reply_word :: ulong
  reply_bytes :: string

text \<open>
  The calls that leave the polling thread. Each is logged together with the value of the
  thread's device handle \<^verbatim>\<open>st->h\<close> at the moment of the call.
\<close>

datatype dbus_signal =
    SCANBD_DBUS_SIGNAL_SCAN_BEGIN
  | SCANBD_DBUS_SIGNAL_TRIGGER
  | SCANBD_DBUS_SIGNAL_SCAN_END

datatype event =
    Control_option nat
  | Sane_close
  | Sane_open
  | Mutex_lock
  | Mutex_unlock
  | Cond_broadcast
  | Dbus_signal dbus_signal "string option list"
  | Usleep
  | Fork string "string option list"
  | Fork_failed
  | Waitpid

record world =
  descriptors :: "nat \<Rightarrow> SANE_Option_Descriptor option"
  control_replies :: "control_reply list"
  open_replies :: "SANE_Status list"
  fork_fails :: bool
  events :: "(event \<times> SANE_Handle option) list"

definition emit :: "event \<Rightarrow> SANE_Handle option \<Rightarrow> world \<Rightarrow> world" where
  "emit e hdl w = w\<lparr>events := events w @ [(e, hdl)]\<rparr>"

text \<open>\<^verbatim>\<open>sane_get_option_descriptor\<close>: no descriptor without an open handle.\<close>

definition sane_get_option_descriptor ::
  "world \<Rightarrow> SANE_Handle option \<Rightarrow> nat \<Rightarrow> SANE_Option_Descriptor option" where
  "sane_get_option_descriptor w hdl index =
     (case hdl of None \<Rightarrow> None | Some _ \<Rightarrow> descriptors w index)"

text \<open>
  \<^verbatim>\<open>sane_control_option\<close> with \<^verbatim>\<open>SANE_ACTION_GET_VALUE\<close>: the next scripted reply is
  consumed. Without an open handle, or when the script is exhausted, the call fails.
\<close>

definition failed_reply :: "SANE_Status \<Rightarrow> control_reply" where
  "failed_reply s = \<lparr>reply_status = s, reply_word = 0, reply_bytes = []\<rparr>"

definition sane_control_option ::
  "SANE_Handle option \<Rightarrow> nat \<Rightarrow> world \<Rightarrow> control_reply \<times> world" where
  "sane_control_option hdl index w =
     (case hdl of
        None \<Rightarrow> (failed_reply SANE_STATUS_INVAL, emit (Control_option index) hdl w)
      | Some _ \<Rightarrow>
          (case control_replies w of
             [] \<Rightarrow> (failed_reply SANE_STATUS_IO_ERROR, emit (Control_option index) hdl w)
           | r # rs \<Rightarrow> (r, emit (Control_option index) hdl (w\<lparr>control_replies := rs\<rparr>))))"

section \<open>Option values\<close>

text \<open>
  \<^verbatim>\<open>struct sane_opt_value\<close>. \<open>str\<close> is \<^verbatim>\<open>str_value.str\<close> and \<open>reg\<close> is
  \<^verbatim>\<open>str_value.reg\<close>; \<open>None\<close> is the null pointer. A compiled regex is represented by
  the pattern it was compiled from.
\<close>

record sane_opt_value =
  num_value :: ulong
  str :: "string option"
  reg :: "string option"

text \<open>\<^verbatim>\<open>sane_option_value_init\<close>\<close>

definition sane_option_value_init :: sane_opt_value where
  "sane_option_value_init = \<lparr>num_value = 0, str = None, reg = None\<rparr>"

text \<open>
  \<^verbatim>\<open>sane_option_value_free\<close> frees and nulls both pointers and leaves \<open>num_value\<close>.
\<close>

definition sane_option_value_free :: "sane_opt_value \<Rightarrow> sane_opt_value" where
  "sane_option_value_free v = v\<lparr>str := None, reg := None\<rparr>"

text \<open>
  \<^verbatim>\<open>hash\<close>: \<^verbatim>\<open>int c = *str++\<close> reads a \<^verbatim>\<open>char\<close> (signed, as on x86) and the sum
  converts it to \<^verbatim>\<open>unsigned long\<close>. The loop stops at the first NUL.
\<close>

definition char_value :: "char \<Rightarrow> ulong" where
  "char_value c = scast (of_char c :: 8 word)"

fun hash_loop :: "ulong \<Rightarrow> string \<Rightarrow> ulong" where
  "hash_loop hash [] = hash"
| "hash_loop hash (c # cs) =
     (if c = CHR 0x00 then hash
      else hash_loop ((push_bit 5 hash + hash) + char_value c) cs)"

definition hash :: "string \<Rightarrow> ulong" where
  "hash s = hash_loop 5381 s"

text \<open>
  The djb2 hash as the specification words it: start from 5381, then \<open>h * 33 + c\<close> for
  each character.
\<close>

definition djb2_spec :: "string \<Rightarrow> ulong" where
  "djb2_spec s = foldl (\<lambda>h c. h * 33 + char_value c) 5381 s"

text \<open>The C string held by a character buffer: the bytes before the first NUL.\<close>

definition c_string :: "string \<Rightarrow> string" where
  "c_string buf = takeWhile (\<lambda>c. c \<noteq> CHR 0x00) buf"

definition is_numeric :: "SANE_Value_Type \<Rightarrow> bool" where
  "is_numeric t \<longleftrightarrow>
     t = SANE_TYPE_BOOL \<or> t = SANE_TYPE_INT \<or> t = SANE_TYPE_FIXED \<or> t = SANE_TYPE_BUTTON"

text \<open>
  \<^verbatim>\<open>get_sane_option_value\<close>. The string buffer has \<open>od_size + 1\<close> zeroed bytes, of which
  the library writes at most the first \<open>od_size\<close>; \<^verbatim>\<open>sizeof(long int)\<close> is 8. On a
  failed string read the allocated buffer is returned with \<open>num_value\<close> left 0.
\<close>

definition get_sane_option_value ::
  "SANE_Handle option \<Rightarrow> nat \<Rightarrow> world \<Rightarrow> sane_opt_value \<times> world" where
  "get_sane_option_value hdl index w =
     (let res = sane_option_value_init in
      case sane_get_option_descriptor w hdl index of
        None \<Rightarrow> (res, w)
      | Some odesc \<Rightarrow>
          if is_numeric (od_type odesc) then
            (if 0 \<le> od_size odesc \<and> od_size odesc \<le> 8 then
               (case sane_control_option hdl index w of
                  (r, w') \<Rightarrow>
                    if reply_status r \<noteq> SANE_STATUS_GOOD then (res, w')
                    else (res\<lparr>num_value := reply_word r\<rparr>, w'))
             else (res, w))
          else if od_type odesc = SANE_TYPE_STRING then
            (case sane_control_option hdl index w of
               (r, w') \<Rightarrow>
                 (let s = c_string (take (nat (od_size odesc)) (reply_bytes r)) in
                  if reply_status r \<noteq> SANE_STATUS_GOOD then (res\<lparr>str := Some s\<rparr>, w')
                  else (res\<lparr>str := Some s, num_value := hash s\<rparr>, w')))
          else (res, w))"

section \<open>Rules and the polling thread's data\<close>

text \<open>
  \<^verbatim>\<open>struct sane_dev_option\<close>; \<open>opt_value\<close> is the field \<^verbatim>\<open>value\<close>, the option value of
  the last polling cycle.
\<close>

record sane_dev_option =
  number :: nat
  from_value :: sane_opt_value
  to_value :: sane_opt_value
  opt_value :: sane_opt_value
  script :: "string option"
  action_name :: "string option"

text \<open>\<^verbatim>\<open>struct sane_dev_function\<close>; \<open>fun_number\<close> is its field \<^verbatim>\<open>number\<close>.\<close>

record sane_dev_function =
  fun_number :: nat
  env :: "string option"

text \<open>
  \<^verbatim>\<open>struct sane_thread\<close> without the thread id; the mutex and the condition variable
  appear as logged calls. \<open>dev\<close> is \<^verbatim>\<open>dev->name\<close>, \<open>dev_functions\<close> is the array
  \<^verbatim>\<open>functions\<close>.
\<close>

record sane_thread =
  triggered :: bool
  triggered_option :: int
  dev :: string
  num_of_options :: nat
  h :: "SANE_Handle option"
  opts :: "sane_dev_option list"
  num_of_options_with_scripts :: nat
  dev_functions :: "sane_dev_function list"
  num_of_options_with_functions :: nat

text \<open>
  What \<^verbatim>\<open>sane.c\<close> takes from outside the repository's sources at hand: the POSIX regex
  calls (\<open>regcomp\<close> gives the return code for a pattern, \<open>regexec\<close> the return code of
  matching a compiled pattern against a string, \<open>regerror\<close> says whether the call returns
  for an error code: glibc aborts the process for a code outside its table, as every
  negative code is), the macro \<^verbatim>\<open>SCANBD_NULL_STRING\<close> and
  \<^verbatim>\<open>make_script_path_abs\<close> of the absent headers, the configuration values
  \<^verbatim>\<open>multiple_actions\<close>, \<^verbatim>\<open>environment.device\<close> and \<^verbatim>\<open>environment.action\<close>, and the
  process environment (\<^verbatim>\<open>getenv\<close>, \<^verbatim>\<open>getcwd\<close>, and the name and home directory of
  \<^verbatim>\<open>getpwuid(geteuid())\<close>).
\<close>

record externals =
  regcomp :: "string \<Rightarrow> int"
  regexec :: "string \<Rightarrow> string \<Rightarrow> int"
  regerror :: "int \<Rightarrow> bool"
  SCANBD_NULL_STRING :: string
  make_script_path_abs :: "string \<Rightarrow> string"
  multiple_actions :: bool
  env_device :: "string option"
  env_action :: "string option"
  getenv :: "string \<Rightarrow> string option"
  getcwd :: "string option"
  getpwuid :: "(string \<times> string) option"

text \<open>An action section and a function section of the configuration file.\<close>

record cfg_action =
  action_title :: "string option"
  action_filter :: string
  action_script :: "string option"
  numerical_from_value :: int
  numerical_to_value :: int
  string_from_value :: string
  string_to_value :: string

text \<open>
  How the thread can stop: a failed \<^verbatim>\<open>assert\<close>, a null pointer or an index outside an
  array handed to code that dereferences it, \<^verbatim>\<open>pthread_exit\<close>, and an abort inside a
  library call.
\<close>

datatype error = Assert_failed | Segfault | Thread_exit | Library_abort

section \<open>The rule compiler: \<^verbatim>\<open>sane_find_matching_options\<close>\<close>

text \<open>
  The search for the slot \<open>n\<close> of a matched option: the first installed rule on the same
  option number, which is overridden, or, with \<^verbatim>\<open>multiple_actions\<close>, the first free slot.
\<close>

definition find_slot :: "bool \<Rightarrow> sane_thread \<Rightarrow> nat \<Rightarrow> nat" where
  "find_slot multi st opt =
     (case find (\<lambda>n. number (opts st ! n) = opt) [0..<num_of_options_with_scripts st] of
        None \<Rightarrow> num_of_options_with_scripts st
      | Some n \<Rightarrow>
          if \<not> multi then n
          else if n < num_of_options st then num_of_options_with_scripts st
          else n)"

definition count_installed :: "nat \<Rightarrow> sane_thread \<Rightarrow> sane_thread" where
  "count_installed n st =
     (if n = num_of_options_with_scripts st
      then st\<lparr>num_of_options_with_scripts := num_of_options_with_scripts st + 1\<rparr>
      else st)"

text \<open>
  The body of the loop over the option numbers, for one action section and one option:
  the filters on the descriptor, the slot search, and the installation. A string rule is
  written into its slot first and checked afterwards: when \<open>regcomp\<close> answered a value
  below zero for one of the two patterns, \<open>regerror\<close> is called with that value, and if
  it returns, the three values of the slot are freed again and the count is left alone.
  A code above zero passes the test \<^verbatim>\<open>ret < 0\<close> like the code 0 of a compiled pattern.
\<close>

definition install_action ::
  "externals \<Rightarrow> cfg_action \<Rightarrow> nat \<Rightarrow> sane_thread \<Rightarrow> world \<Rightarrow> error + (sane_thread \<times> world)" where
  "install_action x action_i opt st w =
     (case sane_get_option_descriptor w (h st) opt of
        None \<Rightarrow> Inr (st, w)
      | Some odesc \<Rightarrow>
          if \<not> od_active odesc then Inr (st, w)
          else (case od_name odesc of
            None \<Rightarrow> Inr (st, w)
          | Some name \<Rightarrow>
              if \<not> (is_numeric (od_type odesc) \<or> od_type odesc = SANE_TYPE_STRING)
              then Inr (st, w)
              else if regexec x (action_filter action_i) name \<noteq> 0 then Inr (st, w)
              else if length (opts st) < num_of_options_with_scripts st then Inl Segfault
              else
                let title = (case action_title action_i of None \<Rightarrow> ''(none)'' | Some t \<Rightarrow> t);
                    script_i = (case action_script action_i of
                                  None \<Rightarrow> SCANBD_NULL_STRING x
                                | Some s \<Rightarrow> if length s = 0 then SCANBD_NULL_STRING x else s);
                    n = find_slot (multiple_actions x) st opt
                in
                  if n = num_of_options st then Inr (st, w)
                  else if length (opts st) \<le> n then Inl Segfault
                  else
                    let o1 = (opts st ! n)\<lparr>number := opt, action_name := Some title,
                               script := Some script_i,
                               from_value := sane_option_value_free (from_value (opts st ! n)),
                               to_value := sane_option_value_free (to_value (opts st ! n)),
                               opt_value := sane_option_value_free (opt_value (opts st ! n))\<rparr>
                    in
                      if is_numeric (od_type odesc) then
                        (case get_sane_option_value (h st) opt w of
                           (v, w') \<Rightarrow>
                             let o2 = o1\<lparr>from_value := (from_value o1)\<lparr>num_value :=
                                           word_of_int (numerical_from_value action_i)\<rparr>,
                                         to_value := (to_value o1)\<lparr>num_value :=
                                           word_of_int (numerical_to_value action_i)\<rparr>,
                                         opt_value := v\<rparr>
                             in Inr (count_installed n (st\<lparr>opts := (opts st)[n := o2]\<rparr>), w'))
                      else if regcomp x (string_from_value action_i) < 0 \<and>
                              \<not> regerror x (regcomp x (string_from_value action_i))
                      then Inl Library_abort
                      else if regcomp x (string_to_value action_i) < 0 \<and>
                              \<not> regerror x (regcomp x (string_to_value action_i))
                      then Inl Library_abort
                      else
                        let valid1 = \<not> regcomp x (string_from_value action_i) < 0;
                            valid = (if regcomp x (string_to_value action_i) < 0 then False
                                     else valid1)
                        in
                          (case get_sane_option_value (h st) opt w of
                             (v, w') \<Rightarrow>
                               let o2 = o1\<lparr>from_value := (from_value o1)\<lparr>
                                             str := Some (string_from_value action_i),
                                             reg := Some (string_from_value action_i)\<rparr>,
                                           to_value := (to_value o1)\<lparr>
                                             str := Some (string_to_value action_i),
                                             reg := Some (string_to_value action_i)\<rparr>,
                                           opt_value := v\<rparr>
                               in
                                 if \<not> valid then
                                   Inr (st\<lparr>opts := (opts st)[n := o2\<lparr>
                                          from_value := sane_option_value_free (from_value o2),
                                          to_value := sane_option_value_free (to_value o2),
                                          opt_value := sane_option_value_free (opt_value o2)\<rparr>]\<rparr>,
                                        w')
                                 else Inr (count_installed n (st\<lparr>opts := (opts st)[n := o2]\<rparr>),
                                           w'))))"

text \<open>The loop over the option numbers \<open>1 .. num_of_options - 1\<close> for one action section.\<close>

fun install_action_options ::
  "externals \<Rightarrow> cfg_action \<Rightarrow> nat list \<Rightarrow> sane_thread \<Rightarrow> world \<Rightarrow> error + (sane_thread \<times> world)" where
  "install_action_options x action_i [] st w = Inr (st, w)"
| "install_action_options x action_i (opt # rest) st w =
     (case install_action x action_i opt st w of
        Inl e \<Rightarrow> Inl e
      | Inr (st', w') \<Rightarrow> install_action_options x action_i rest st' w')"

text \<open>
  \<^verbatim>\<open>sane_find_matching_options\<close> on the action sections of one configuration section:
  an action whose filter \<open>regcomp\<close> answers below zero is skipped, after the call of
  \<open>regerror\<close> with that value.
\<close>

fun sane_find_matching_options ::
  "externals \<Rightarrow> cfg_action list \<Rightarrow> sane_thread \<Rightarrow> world \<Rightarrow> error + (sane_thread \<times> world)" where
  "sane_find_matching_options x [] st w = Inr (st, w)"
| "sane_find_matching_options x (action_i # rest) st w =
     (if regcomp x (action_filter action_i) < 0
      then (if regerror x (regcomp x (action_filter action_i))
            then sane_find_matching_options x rest st w
            else Inl Library_abort)
      else case install_action_options x action_i [1..<num_of_options st] st w of
             Inl e \<Rightarrow> Inl e
           | Inr (st', w') \<Rightarrow> sane_find_matching_options x rest st' w')"

section \<open>The polling loop of \<^verbatim>\<open>sane_poll\<close>\<close>

text \<open>
  The search \<^verbatim>\<open>for(o = 0; o < si; o += 1)\<close> for an earlier rule on the same option
  number: the first such index, if any.
\<close>

definition got_already :: "sane_thread \<Rightarrow> nat \<Rightarrow> nat option" where
  "got_already st si =
     find (\<lambda>k. number (opts st ! k) = number (opts st ! si)) [0..<si]"

text \<open>
  The value \<^verbatim>\<open>value\<close> of rule \<open>si\<close> in this pass: queried from the device on the first
  use of the option number, copied from the earlier rule's stored value otherwise
  (\<open>num_value\<close>, and a duplicate of the string when there is one).
\<close>

definition current_value :: "nat \<Rightarrow> sane_thread \<Rightarrow> world \<Rightarrow> sane_opt_value \<times> world" where
  "current_value si st w =
     (case got_already st si of
        None \<Rightarrow> get_sane_option_value (h st) (number (opts st ! si)) w
      | Some k \<Rightarrow>
          (sane_option_value_init\<lparr>num_value := num_value (opt_value (opts st ! k)),
             str := str (opt_value (opts st ! k))\<rparr>, w))"

text \<open>
  The comparison. For a string option both \<open>regexec\<close> calls dereference their regex and
  their string; the second call is made only when the first one matched.
\<close>

definition value_trigger ::
  "externals \<Rightarrow> SANE_Option_Descriptor \<Rightarrow> sane_dev_option \<Rightarrow> sane_opt_value \<Rightarrow> error + bool" where
  "value_trigger x odesc r v =
     (if is_numeric (od_type odesc) then
        Inr (num_value (from_value r) = num_value (opt_value r) \<and>
             num_value (to_value r) = num_value v)
      else if od_type odesc = SANE_TYPE_STRING then
        (case (reg (from_value r), str (opt_value r)) of
           (Some re1, Some s1) \<Rightarrow>
             if regexec x re1 s1 = 0 then
               (case (reg (to_value r), str v) of
                  (Some re2, Some s2) \<Rightarrow> Inr (regexec x re2 s2 = 0)
                | _ \<Rightarrow> Inl Segfault)
             else Inr False
         | _ \<Rightarrow> Inl Segfault)
      else Inl Assert_failed)"

definition set_trigger :: "nat \<Rightarrow> sane_thread \<Rightarrow> world \<Rightarrow> sane_thread \<times> world" where
  "set_trigger si st w =
     (st\<lparr>triggered := True, triggered_option := int si\<rparr>, emit Cond_broadcast (h st) w)"

text \<open>
  \<^verbatim>\<open>printf\<close> conversions: \<^verbatim>\<open>%lu\<close>, \<^verbatim>\<open>%s\<close> (glibc prints a null pointer as
  \<^verbatim>\<open>(null)\<close>), and the bound of \<^verbatim>\<open>snprintf(buf, NAME_MAX, ...)\<close> with \<^verbatim>\<open>NAME_MAX\<close> = 255.
\<close>

fun decimal :: "nat \<Rightarrow> string" where
  "decimal n =
     (if n < 10 then [''0123456789'' ! n]
      else decimal (n div 10) @ [''0123456789'' ! (n mod 10)])"

definition printf_lu :: "ulong \<Rightarrow> string" where
  "printf_lu v = decimal (unat v)"

definition printf_s :: "string option \<Rightarrow> string" where
  "printf_s p = (case p of None \<Rightarrow> ''(null)'' | Some s \<Rightarrow> s)"

definition snprintf_NAME_MAX :: "string \<Rightarrow> string" where
  "snprintf_NAME_MAX s = take 254 s"

text \<open>
  One pass of the loop over the function rules in the dispatcher. \<open>odesc\<close> is the
  descriptor of the action rule being polled: the source tests \<^verbatim>\<open>odesc->type\<close>, not
  \<^verbatim>\<open>fdesc->type\<close>, against \<^verbatim>\<open>SANE_TYPE_BUTTON\<close>. When the function's option number is
  also an action rule's, no value is fetched and \<open>v\<close> stays as initialised.
\<close>

definition function_entry ::
  "externals \<Rightarrow> SANE_Option_Descriptor \<Rightarrow> sane_thread \<Rightarrow> nat \<Rightarrow> string option list \<Rightarrow> world \<Rightarrow>
     error + (string option list \<times> world)" where
  "function_entry x odesc st e envp w =
     (if length (dev_functions st) \<le> e then Inl Segfault
      else
        case sane_get_option_descriptor w (h st) (fun_number (dev_functions st ! e)) of
          None \<Rightarrow> Inl Assert_failed
        | Some fdesc \<Rightarrow>
            (case (if find (\<lambda>k. number (opts st ! k) = fun_number (dev_functions st ! e))
                        [0..<num_of_options_with_scripts st] = None
                   then get_sane_option_value (h st) (fun_number (dev_functions st ! e)) w
                   else (sane_option_value_init, w)) of
               (v, w') \<Rightarrow>
                 if od_type fdesc = SANE_TYPE_BOOL \<or> od_type fdesc = SANE_TYPE_INT \<or>
                    od_type fdesc = SANE_TYPE_FIXED \<or> od_type odesc = SANE_TYPE_BUTTON
                 then Inr (envp[e := Some (snprintf_NAME_MAX
                        (printf_s (env (dev_functions st ! e)) @ ''='' @ printf_lu (num_value v)))],
                      w')
                 else if od_type fdesc = SANE_TYPE_STRING
                 then Inr (envp[e := Some (snprintf_NAME_MAX
                        (printf_s (env (dev_functions st ! e)) @ ''='' @ printf_s (str v)))],
                      w')
                 else Inl Assert_failed))"

fun function_entries ::
  "externals \<Rightarrow> SANE_Option_Descriptor \<Rightarrow> sane_thread \<Rightarrow> nat list \<Rightarrow> string option list \<Rightarrow> world \<Rightarrow>
     error + (string option list \<times> world)" where
  "function_entries x odesc st [] envp w = Inr (envp, w)"
| "function_entries x odesc st (e # es) envp w =
     (case function_entry x odesc st e envp w of
        Inl err \<Rightarrow> Inl err
      | Inr (envp', w') \<Rightarrow> function_entries x odesc st es envp' w')"

text \<open>\<^verbatim>\<open>snprintf(env[e], NAME_MAX, "%s=%s", ev, val); e += 1\<close>\<close>

definition put_env :: "string \<Rightarrow> string \<Rightarrow> string option list \<times> nat \<Rightarrow> string option list \<times> nat" where
  "put_env ev val p =
     (case p of (envp, e) \<Rightarrow> (envp[e := Some (snprintf_NAME_MAX (ev @ ''='' @ val))], e + 1))"

text \<open>
  The entries after the function rules: \<^verbatim>\<open>PATH\<close>, \<^verbatim>\<open>PWD\<close> (dropped when neither the
  environment nor \<^verbatim>\<open>getcwd\<close> gives it), \<^verbatim>\<open>USER\<close> and \<^verbatim>\<open>HOME\<close> (with
  \<^verbatim>\<open>assert(pwd)\<close>), and the two configured names, each dropped when not configured.
\<close>

definition entry_PATH :: "externals \<Rightarrow> string option list \<times> nat \<Rightarrow> string option list \<times> nat" where
  "entry_PATH x p =
     (case getenv x ''PATH'' of
        Some val \<Rightarrow> put_env ''PATH'' val p
      | None \<Rightarrow> put_env ''PATH'' ''/usr/sbin:/usr/bin:/sbin:/bin'' p)"

definition entry_PWD :: "externals \<Rightarrow> string option list \<times> nat \<Rightarrow> string option list \<times> nat" where
  "entry_PWD x p =
     (case getenv x ''PWD'' of
        Some val \<Rightarrow> put_env ''PWD'' val p
      | None \<Rightarrow> (case getcwd x of None \<Rightarrow> p | Some val \<Rightarrow> put_env ''PWD'' val p))"

definition entry_USER ::
  "externals \<Rightarrow> string option list \<times> nat \<Rightarrow> error + (string option list \<times> nat)" where
  "entry_USER x p =
     (case getenv x ''USER'' of
        Some val \<Rightarrow> Inr (put_env ''USER'' val p)
      | None \<Rightarrow> (case getpwuid x of
                   None \<Rightarrow> Inl Assert_failed
                 | Some pwd \<Rightarrow> Inr (put_env ''USER'' (fst pwd) p)))"

definition entry_HOME ::
  "externals \<Rightarrow> string option list \<times> nat \<Rightarrow> error + (string option list \<times> nat)" where
  "entry_HOME x p =
     (case getenv x ''HOME'' of
        Some val \<Rightarrow> Inr (put_env ''HOME'' val p)
      | None \<Rightarrow> (case getpwuid x of
                   None \<Rightarrow> Inl Assert_failed
                 | Some pwd \<Rightarrow> Inr (put_env ''HOME'' (snd pwd) p)))"

definition entry_device ::
  "externals \<Rightarrow> sane_thread \<Rightarrow> string option list \<times> nat \<Rightarrow> string option list \<times> nat" where
  "entry_device x st p =
     (case env_device x of None \<Rightarrow> p | Some ev \<Rightarrow> put_env ev (dev st) p)"

definition entry_action ::
  "externals \<Rightarrow> sane_thread \<Rightarrow> string option list \<times> nat \<Rightarrow> string option list \<times> nat" where
  "entry_action x st p =
     (case env_action x of
        None \<Rightarrow> p
      | Some ev \<Rightarrow>
          put_env ev (printf_s (action_name (opts st ! nat (triggered_option st)))) p)"

definition fixed_entries ::
  "externals \<Rightarrow> sane_thread \<Rightarrow> string option list \<times> nat \<Rightarrow> error + (string option list \<times> nat)" where
  "fixed_entries x st p0 =
     (case entry_USER x (entry_PWD x (entry_PATH x p0)) of
        Inl err \<Rightarrow> Inl err
      | Inr p3 \<Rightarrow>
          (case entry_HOME x p3 of
             Inl err \<Rightarrow> Inl err
           | Inr p4 \<Rightarrow> Inr (entry_action x st (entry_device x st p4))))"

text \<open>
  The environment of the dispatcher: \<open>number_of_envs\<close> buffers, the function entries, the
  fixed entries, the sentinel \<^verbatim>\<open>env[e] = NULL\<close> and \<^verbatim>\<open>assert(e == number_of_envs-1)\<close>.
\<close>

definition number_of_envs :: "sane_thread \<Rightarrow> nat" where
  "number_of_envs st = num_of_options_with_functions st + 4 + 2 + 1"

definition build_environment ::
  "externals \<Rightarrow> SANE_Option_Descriptor \<Rightarrow> sane_thread \<Rightarrow> world \<Rightarrow>
     error + (string option list \<times> world)" where
  "build_environment x odesc st w =
     (case function_entries x odesc st [0..<num_of_options_with_functions st]
             (replicate (number_of_envs st) (Some [])) w of
        Inl err \<Rightarrow> Inl err
      | Inr (env1, w') \<Rightarrow>
          (case fixed_entries x st (env1, num_of_options_with_functions st) of
             Inl err \<Rightarrow> Inl err
           | Inr (env2, e) \<Rightarrow>
               if e = number_of_envs st - 1 then Inr (env2[e := None], w')
               else Inl Assert_failed))"

text \<open>
  The two bus signals, \<^verbatim>\<open>sane_close(st->h)\<close> and \<^verbatim>\<open>st->h = NULL\<close>.
\<close>

definition release_device ::
  "string option list \<Rightarrow> sane_thread \<Rightarrow> world \<Rightarrow> sane_thread \<times> world" where
  "release_device envp st w =
     (st\<lparr>h := None\<rparr>,
      emit Sane_close (h st)
        (emit (Dbus_signal SCANBD_DBUS_SIGNAL_TRIGGER envp) (h st)
          (emit (Dbus_signal SCANBD_DBUS_SIGNAL_SCAN_BEGIN [Some (dev st)]) (h st) w)))"

text \<open>
  From leaving the critical section to entering it again before the reopen: the child is
  forked and waited for unless the script is \<^verbatim>\<open>SCANBD_NULL_STRING\<close>; then the trigger is
  cleared under the lock, and the end signal is sent. What the child does happens in
  another process and is not part of the thread's state.
\<close>

definition run_script ::
  "externals \<Rightarrow> string \<Rightarrow> string option list \<Rightarrow> sane_thread \<Rightarrow> world \<Rightarrow> sane_thread \<times> world" where
  "run_script x script_abs envp st w =
     (let w1 = emit Mutex_unlock (h st) w;
          w2 = (if script_abs \<noteq> SCANBD_NULL_STRING x then
                  (let wu = emit Usleep (h st) w1 in
                   if fork_fails wu then emit Fork_failed (h st) wu
                   else emit Waitpid (h st) (emit (Fork script_abs envp) (h st) wu))
                else w1);
          w3 = emit Mutex_lock (h st) w2;
          st' = st\<lparr>triggered := False, triggered_option := - 1\<rparr>;
          w4 = emit Cond_broadcast (h st') w3;
          w5 = emit Mutex_unlock (h st') w4;
          w6 = emit Usleep (h st') w5;
          w7 = emit (Dbus_signal SCANBD_DBUS_SIGNAL_SCAN_END [Some (dev st')]) (h st') w6;
          w8 = emit Mutex_lock (h st') w7
      in (st', w8))"

text \<open>
  \<^verbatim>\<open>sane_open\<close> after the script: the next scripted status, \<^verbatim>\<open>SANE_STATUS_GOOD\<close> when
  the script of statuses is exhausted. A failed open leaves \<^verbatim>\<open>st->h\<close> as it was; with
  \<^verbatim>\<open>SANE_STATUS_ACCESS_DENIED\<close> the thread exits.
\<close>

definition reopen_device :: "sane_thread \<Rightarrow> world \<Rightarrow> error + (sane_thread \<times> world)" where
  "reopen_device st w =
     (let status = (case open_replies w of [] \<Rightarrow> SANE_STATUS_GOOD | s # _ \<Rightarrow> s);
          w' = emit Sane_open (h st) (w\<lparr>open_replies := tl (open_replies w)\<rparr>)
      in
        if status \<noteq> SANE_STATUS_GOOD then
          (if status = SANE_STATUS_ACCESS_DENIED then Inl Thread_exit else Inr (st, w'))
        else Inr (st\<lparr>h := Some ()\<rparr>, w'))"

text \<open>
  The dispatcher: the block under \<^verbatim>\<open>if (st->triggered && (st->triggered_option >= 0))\<close>.
\<close>

definition dispatch ::
  "externals \<Rightarrow> SANE_Option_Descriptor \<Rightarrow> sane_thread \<Rightarrow> world \<Rightarrow> error + (sane_thread \<times> world)" where
  "dispatch x odesc st w =
     (if \<not> 0 \<le> triggered_option st then Inl Assert_failed
      else if \<not> triggered_option st < int (num_of_options_with_scripts st) then Inl Assert_failed
      else if length (opts st) < num_of_options_with_scripts st then Inl Segfault
      else
        case build_environment x odesc st w of
          Inl err \<Rightarrow> Inl err
        | Inr (envp, w1) \<Rightarrow>
            (case release_device envp st w1 of
               (st2, w2) \<Rightarrow>
                 (case script (opts st2 ! nat (triggered_option st2)) of
                    None \<Rightarrow> Inl Assert_failed
                  | Some s \<Rightarrow>
                      if \<not> 0 < length s then Inl Assert_failed
                      else
                        (case run_script x (make_script_path_abs x s) envp st2 w2 of
                           (st3, w3) \<Rightarrow> reopen_device st3 w3))))"

text \<open>
  The body of \<^verbatim>\<open>for(si = 0; si < st->num_of_options_with_scripts; si += 1)\<close>.
\<close>

definition poll_option ::
  "externals \<Rightarrow> nat \<Rightarrow> sane_thread \<Rightarrow> world \<Rightarrow> error + (sane_thread \<times> world)" where
  "poll_option x si st w =
     (if length (opts st) \<le> si then Inl Segfault
      else
        case sane_get_option_descriptor w (h st) (number (opts st ! si)) of
          None \<Rightarrow> Inl Assert_failed
        | Some odesc \<Rightarrow>
            (case script (opts st ! si) of
               None \<Rightarrow> Inr (st, w)
             | Some s \<Rightarrow>
                 if length s \<le> 0 then Inr (st, w)
                 else
                   (case current_value si st w of
                      (v, w1) \<Rightarrow>
                        (case value_trigger x odesc (opts st ! si) v of
                           Inl err \<Rightarrow> Inl err
                         | Inr fire \<Rightarrow>
                             (case (if fire then set_trigger si st w1 else (st, w1)) of
                                (st1, w2) \<Rightarrow>
                                  (let st2 = st1\<lparr>opts := (opts st1)[si :=
                                               (opts st1 ! si)\<lparr>opt_value := v\<rparr>]\<rparr>
                                   in
                                     if triggered st2 \<and> 0 \<le> triggered_option st2
                                     then dispatch x odesc st2 w2
                                     else Inr (st2, w2)))))))"

fun poll_options ::
  "externals \<Rightarrow> nat list \<Rightarrow> sane_thread \<Rightarrow> world \<Rightarrow> error + (sane_thread \<times> world)" where
  "poll_options x [] st w = Inr (st, w)"
| "poll_options x (si # sis) st w =
     (case poll_option x si st w of
        Inl err \<Rightarrow> Inl err
      | Inr (st', w') \<Rightarrow> poll_options x sis st' w')"

text \<open>
  One turn of \<^verbatim>\<open>while(true)\<close> when no cancellation is pending: the pass over the rules,
  then the lock is released for the polling timeout and taken again.
\<close>

definition sane_poll_round ::
  "externals \<Rightarrow> sane_thread \<Rightarrow> world \<Rightarrow> error + (sane_thread \<times> world)" where
  "sane_poll_round x st w =
     (case poll_options x [0..<num_of_options_with_scripts st] st w of
        Inl err \<Rightarrow> Inl err
      | Inr (st', w') \<Rightarrow>
          Inr (st', emit Mutex_lock (h st') (emit Usleep (h st') (emit Mutex_unlock (h st') w'))))"

text \<open>\<open>n\<close> turns of the loop, with no other thread touching the slot in between.\<close>

fun sane_poll_rounds ::
  "externals \<Rightarrow> nat \<Rightarrow> sane_thread \<Rightarrow> world \<Rightarrow> error + (sane_thread \<times> world)" where
  "sane_poll_rounds x 0 st w = Inr (st, w)"
| "sane_poll_rounds x (Suc n) st w =
     (case sane_poll_round x st w of
        Inl err \<Rightarrow> Inl err
      | Inr (st', w') \<Rightarrow> sane_poll_rounds x n st' w')"

section \<open>The supervisor: slot initialisation and \<^verbatim>\<open>sane_trigger_action\<close>\<close>

text \<open>
  The slot that \<^verbatim>\<open>start_sane_threads\<close> sets up for a device before it creates the
  polling thread; the null arrays are empty lists.
\<close>

definition start_sane_thread :: "string \<Rightarrow> sane_thread" where
  "start_sane_thread device_name =
     \<lparr>triggered = False, triggered_option = - 1, dev = device_name, num_of_options = 0,
      h = None, opts = [], num_of_options_with_scripts = 0, dev_functions = [],
      num_of_options_with_functions = 0\<rparr>"

text \<open>
  The process-wide variables \<^verbatim>\<open>num_devices\<close> and \<^verbatim>\<open>sane_poll_threads\<close> (\<open>None\<close> is
  the null pointer: no poller set).
\<close>

record sane_globals =
  num_devices :: int
  sane_poll_threads :: "sane_thread list option"

text \<open>
  The lock and condition-variable calls of \<^verbatim>\<open>sane_trigger_action\<close>; the number is the
  index of the slot whose mutex or condition variable is meant. Each call is logged with
  the values of \<open>triggered\<close> and \<open>triggered_option\<close> of the addressed slot at that moment.
\<close>

datatype trigger_event =
    Lock_sane_mutex
  | Unlock_sane_mutex
  | Wait_sane_cv
  | Lock_mutex nat
  | Unlock_mutex nat
  | Wait_cv nat
  | Broadcast_cv nat

text \<open>
  How a call of \<^verbatim>\<open>sane_trigger_action\<close> stands: it has returned, it was stopped by an
  assertion or by a dangling slot, or it sleeps in \<^verbatim>\<open>pthread_cond_wait\<close> on the global
  or on the slot's condition variable and goes on when woken.
\<close>

datatype trigger_outcome = Returned | Aborted error | Waiting_sane_cv | Waiting_cv

type_synonym trigger_log = "(trigger_event \<times> (bool \<times> int) option) list"

definition slot_flags :: "sane_globals \<Rightarrow> nat \<Rightarrow> (bool \<times> int) option" where
  "slot_flags g d =
     (case sane_poll_threads g of
        None \<Rightarrow> None
      | Some ths \<Rightarrow>
          if d < length ths then Some (triggered (ths ! d), triggered_option (ths ! d))
          else None)"

text \<open>
  From \<^verbatim>\<open>while(st->triggered == true)\<close> on, with both mutexes held; also where the call
  goes on after a wake-up on the slot's condition variable.
\<close>

definition trigger_when_idle ::
  "nat \<Rightarrow> int \<Rightarrow> sane_globals \<Rightarrow> trigger_log \<times> trigger_outcome \<times> sane_globals" where
  "trigger_when_idle d action g =
     (case sane_poll_threads g of
        None \<Rightarrow> ([], Aborted Segfault, g)
      | Some ths \<Rightarrow>
          if length ths \<le> d then ([], Aborted Segfault, g)
          else if triggered (ths ! d) then ([(Wait_cv d, slot_flags g d)], Waiting_cv, g)
          else
            let g' = g\<lparr>sane_poll_threads :=
                       Some (ths[d := (ths ! d)\<lparr>triggered := True, triggered_option := action\<rparr>])\<rparr>
            in ([(Broadcast_cv d, slot_flags g' d), (Unlock_mutex d, slot_flags g' d),
                 (Unlock_sane_mutex, slot_flags g' d)], Returned, g'))"

text \<open>
  From \<^verbatim>\<open>while(sane_poll_threads == NULL)\<close> on, with the global mutex held; also where
  the call goes on after a wake-up on the global condition variable.
\<close>

definition trigger_when_polling ::
  "nat \<Rightarrow> int \<Rightarrow> sane_globals \<Rightarrow> trigger_log \<times> trigger_outcome \<times> sane_globals" where
  "trigger_when_polling d action g =
     (case sane_poll_threads g of
        None \<Rightarrow> ([(Wait_sane_cv, slot_flags g d)], Waiting_sane_cv, g)
      | Some ths \<Rightarrow>
          if length ths \<le> d then ([], Aborted Segfault, g)
          else if int (num_of_options_with_scripts (ths ! d)) \<le> action
          then ([(Lock_mutex d, slot_flags g d), (Unlock_mutex d, slot_flags g d),
                 (Unlock_sane_mutex, slot_flags g d)], Returned, g)
          else
            (case trigger_when_idle d action g of
               (evs, out, g') \<Rightarrow> ((Lock_mutex d, slot_flags g d) # evs, out, g')))"

definition sane_trigger_action ::
  "int \<Rightarrow> int \<Rightarrow> sane_globals \<Rightarrow> trigger_log \<times> trigger_outcome \<times> sane_globals" where
  "sane_trigger_action number_of_dev action g =
     (if \<not> 0 \<le> number_of_dev then ([], Aborted Assert_failed, g)
      else if \<not> 0 \<le> action then ([], Aborted Assert_failed, g)
      else if num_devices g \<le> 0
      then ([(Lock_sane_mutex, slot_flags g (nat number_of_dev)),
             (Unlock_sane_mutex, slot_flags g (nat number_of_dev))], Returned, g)
      else if num_devices g \<le> number_of_dev
      then ([(Lock_sane_mutex, slot_flags g (nat number_of_dev)),
             (Unlock_sane_mutex, slot_flags g (nat number_of_dev))], Returned, g)
      else
        (case trigger_when_polling (nat number_of_dev) action g of
           (evs, out, g') \<Rightarrow>
             ((Lock_sane_mutex, slot_flags g (nat number_of_dev)) # evs, out, g')))"

section \<open>Observations on the log\<close>

text \<open>The scripts forked and the \<^verbatim>\<open>trigger\<close> bus signals sent, in the order of the log.\<close>

fun spawns :: "(event \<times> SANE_Handle option) list \<Rightarrow> string list" where
  "spawns [] = []"
| "spawns ((Fork s envp, _) # es) = s # spawns es"
| "spawns (_ # es) = spawns es"

fun trigger_signals :: "(event \<times> SANE_Handle option) list \<Rightarrow> string option list list" where
  "trigger_signals [] = []"
| "trigger_signals ((Dbus_signal SCANBD_DBUS_SIGNAL_TRIGGER envp, _) # es) =
     envp # trigger_signals es"
| "trigger_signals (_ # es) = trigger_signals es"

text \<open>The option numbers queried from the device, in the order of the log.\<close>

fun queries :: "(event \<times> SANE_Handle option) list \<Rightarrow> nat list" where
  "queries [] = []"
| "queries ((Control_option n, _) # es) = n # queries es"
| "queries (_ # es) = queries es"

text \<open>The log and the rule array of a run that went through.\<close>

definition log_of :: "error + (sane_thread \<times> world) \<Rightarrow> (event \<times> SANE_Handle option) list" where
  "log_of r = (case r of Inl err \<Rightarrow> [] | Inr (st, w) \<Rightarrow> events w)"

definition opts_of :: "error + (sane_thread \<times> world) \<Rightarrow> sane_dev_option list" where
  "opts_of r = (case r of Inl err \<Rightarrow> [] | Inr (st, w) \<Rightarrow> opts st)"

definition count_of :: "error + (sane_thread \<times> world) \<Rightarrow> nat" where
  "count_of r = (case r of Inl err \<Rightarrow> 0 | Inr (st, w) \<Rightarrow> num_of_options_with_scripts st)"

section \<open>Predicates and terms used in the statements\<close>

text \<open>
  The invariant on the two trigger fields of a slot: while \<open>triggered\<close> holds,
  \<open>triggered_option\<close> is an index into the installed rules; otherwise it is \<open>-1\<close>.
\<close>

definition trigger_invariant :: "sane_thread \<Rightarrow> bool" where
  "trigger_invariant st =
     (if triggered st
      then 0 \<le> triggered_option st \<and> triggered_option st < int (num_of_options_with_scripts st)
      else triggered_option st = - 1)"

text \<open>
  The slot after the comparison of rule \<open>si\<close>: the trigger fields are set when the
  comparison fired, and the value just read replaces the stored one.
\<close>

definition checked :: "bool \<Rightarrow> nat \<Rightarrow> sane_opt_value \<Rightarrow> sane_thread \<Rightarrow> sane_thread" where
  "checked fire si v st =
     (if fire then st\<lparr>triggered := True, triggered_option := int si\<rparr> else st)
       \<lparr>opts := (opts st)[si := (opts st ! si)\<lparr>opt_value := v\<rparr>]\<rparr>"

text \<open>
  The slot array after an external trigger on slot \<open>d\<close> with action \<open>a\<close>.
\<close>

definition armed :: "sane_thread list \<Rightarrow> nat \<Rightarrow> int \<Rightarrow> sane_thread list" where
  "armed ths d a = ths[d := (ths ! d)\<lparr>triggered := True, triggered_option := a\<rparr>]"

text \<open>
  What the dispatcher logs between leaving the critical section and entering it again,
  as far as the child is concerned.
\<close>

definition child_events ::
  "externals \<Rightarrow> string \<Rightarrow> string option list \<Rightarrow> world \<Rightarrow> (event \<times> SANE_Handle option) list" where
  "child_events x script_abs envp w =
     (if script_abs = SCANBD_NULL_STRING x then []
      else if fork_fails w then [(Usleep, None), (Fork_failed, None)]
      else [(Usleep, None), (Fork script_abs envp, None), (Waitpid, None)])"

text \<open>
  \<open>reused st os si\<close>: in the rule array \<open>os\<close> after a pass, the stored value of rule
  \<open>si\<close> is a value returned by \<open>get_sane_option_value\<close> for its option number when no
  earlier rule of \<open>st\<close> has that number, and otherwise equals the stored value of the
  first rule with that number, which itself has no earlier one. \<open>polled st i os\<close> is the
  loop invariant after the rules below \<open>i\<close>: only stored values have changed, and the
  rules below \<open>i\<close> are \<open>reused\<close> and hold no regex.
\<close>

definition reused :: "sane_thread \<Rightarrow> sane_dev_option list \<Rightarrow> nat \<Rightarrow> bool" where
  "reused st os si =
     (case got_already st si of
        None \<Rightarrow>
          (\<exists>hdl wk. opt_value (os ! si) =
             fst (get_sane_option_value hdl (number (opts st ! si)) wk))
      | Some k \<Rightarrow>
          k < si \<and> number (opts st ! k) = number (opts st ! si) \<and>
          got_already st k = None \<and> opt_value (os ! si) = opt_value (os ! k))"

definition polled :: "sane_thread \<Rightarrow> nat \<Rightarrow> sane_dev_option list \<Rightarrow> bool" where
  "polled st i os \<longleftrightarrow>
     length os = length (opts st) \<and>
     (\<forall>k < length os. number (os ! k) = number (opts st ! k) \<and>
        script (os ! k) = script (opts st ! k)) \<and>
     (\<forall>k < i. reg (opt_value (os ! k)) = None \<and> reused st os k)"

text \<open>
  \<open>installed st\<close>: the installed rules lie within the allocated array, and each has a
  script that is neither null nor empty.
\<close>

definition installed :: "sane_thread \<Rightarrow> bool" where
  "installed st \<longleftrightarrow>
     num_of_options_with_scripts st \<le> length (opts st) \<and>
     (\<forall>k < num_of_options_with_scripts st.
        script (opts st ! k) \<noteq> None \<and> script (opts st ! k) \<noteq> Some [])"

section \<open>A sample device and configuration\<close>

text \<open>
  Concrete inputs on which the model is run: externals whose \<open>regcomp\<close> rejects the
  unbalanced pattern \<^verbatim>\<open>(\<close> with the positive code 8 (glibc's \<^verbatim>\<open>REG_EPAREN\<close>) and
  accepts every other pattern, whose \<open>regerror\<close> returns for the codes 0 to 16, and
  whose \<open>regexec\<close> matches a string against the pattern \<^verbatim>\<open>^string$\<close> only; a device with a bool option 3 named \<^verbatim>\<open>button\<close> and a string
  option 5 named \<^verbatim>\<open>mode\<close>, answering reads from a given script of replies; a polling
  thread after start-up with given rules; and the environment the dispatcher builds
  there when no function rule is installed.
\<close>

definition sample_externals :: externals where
  "sample_externals =
     \<lparr>regcomp = (\<lambda>p. if p = ''('' then 8 else 0),
      regexec = (\<lambda>p s. if p = ''^'' @ s @ ''$'' then 0 else 1),
      regerror = (\<lambda>c. 0 \<le> c \<and> c \<le> 16),
      SCANBD_NULL_STRING = ''(null)'',
      make_script_path_abs = (\<lambda>s. s),
      multiple_actions = False,
      env_device = Some ''SCANBD_DEVICE'',
      env_action = Some ''SCANBD_ACTION'',
      getenv = (\<lambda>n. None),
      getcwd = Some ''/'',
      getpwuid = Some (''root'', ''/root'')\<rparr>"

definition button_descriptor :: SANE_Option_Descriptor where
  "button_descriptor =
     \<lparr>od_name = Some ''button'', od_type = SANE_TYPE_BOOL, od_size = 4, od_active = True\<rparr>"

definition mode_descriptor :: SANE_Option_Descriptor where
  "mode_descriptor =
     \<lparr>od_name = Some ''mode'', od_type = SANE_TYPE_STRING, od_size = 16, od_active = True\<rparr>"

definition numeric_reply :: "ulong \<Rightarrow> control_reply" where
  "numeric_reply v = \<lparr>reply_status = SANE_STATUS_GOOD, reply_word = v, reply_bytes = []\<rparr>"

definition string_reply :: "string \<Rightarrow> control_reply" where
  "string_reply s = \<lparr>reply_status = SANE_STATUS_GOOD, reply_word = 0, reply_bytes = s\<rparr>"

definition sample_device :: "control_reply list \<Rightarrow> world" where
  "sample_device rs =
     \<lparr>descriptors = (\<lambda>n. if n = 3 then Some button_descriptor
                         else if n = 5 then Some mode_descriptor else None),
      control_replies = rs, open_replies = [], fork_fails = False, events = []\<rparr>"

definition numeric_rule :: "nat \<Rightarrow> ulong \<Rightarrow> ulong \<Rightarrow> ulong \<Rightarrow> string \<Rightarrow> sane_dev_option" where
  "numeric_rule n from to seen s =
     \<lparr>number = n,
      from_value = sane_option_value_init\<lparr>num_value := from\<rparr>,
      to_value = sane_option_value_init\<lparr>num_value := to\<rparr>,
      opt_value = sane_option_value_init\<lparr>num_value := seen\<rparr>,
      script = Some s, action_name = Some ''scan''\<rparr>"

definition polling_thread :: "sane_dev_option list \<Rightarrow> sane_dev_function list \<Rightarrow> sane_thread" where
  "polling_thread rules funs =
     \<lparr>triggered = False, triggered_option = - 1, dev = ''dev0'', num_of_options = 6,
      h = Some (), opts = rules, num_of_options_with_scripts = length rules,
      dev_functions = funs, num_of_options_with_functions = length funs\<rparr>"

definition sample_environment :: "string option list" where
  "sample_environment =
     [Some ''PATH=/usr/sbin:/usr/bin:/sbin:/bin'', Some ''PWD=/'', Some ''USER=root'',
      Some ''HOME=/root'', Some ''SCANBD_DEVICE=dev0'', Some ''SCANBD_ACTION=scan'', None]"

text \<open>
  The thread at the moment the second rule of the button scenario has fired, with a
  function rule on the same option; the thread after the arrays have been allocated and
  before any rule is installed; and an action section whose string trigger has an
  unbalanced from-pattern.
\<close>

definition fired_thread :: sane_thread where
  "fired_thread =
     (polling_thread [numeric_rule 3 0 1 1 ''/tmp/s.sh'']
        [\<lparr>fun_number = 3, env = Some ''SCANBD_FUNCTION''\<rparr>])
       \<lparr>triggered := True, triggered_option := 0\<rparr>"

definition allocated_thread :: "nat \<Rightarrow> sane_thread" where
  "allocated_thread n =
     \<lparr>triggered = False, triggered_option = - 1, dev = ''dev0'', num_of_options = n,
      h = Some (),
      opts = replicate n \<lparr>number = 0, from_value = sane_option_value_init,
               to_value = sane_option_value_init, opt_value = sane_option_value_init,
               script = None, action_name = None\<rparr>,
      num_of_options_with_scripts = 0,
      dev_functions = replicate n \<lparr>fun_number = 0, env = None\<rparr>,
      num_of_options_with_functions = 0\<rparr>"

definition unbalanced_action :: cfg_action where
  "unbalanced_action =
     \<lparr>action_title = Some ''scan'', action_filter = ''^mode$'',
      action_script = Some ''/tmp/s.sh'', numerical_from_value = 0, numerical_to_value = 1,
      string_from_value = ''('', string_to_value = ''^scan$''\<rparr>"

section \<open>Properties of the option value read\<close>

lemma hash_loop_foldl:
  "CHR 0x00 \<notin> set s \<Longrightarrow> hash_loop a s = foldl (\<lambda>h c. h * 33 + char_value c) a s"
proof (induction s arbitrary: a)
  case Nil
  show ?case by simp
next
  case (Cons c cs)
  have step: "push_bit 5 a + a = a * 33"
    by (simp add: push_bit_eq_mult)
  from Cons.prems have "c \<noteq> CHR 0x00" and rest: "CHR 0x00 \<notin> set cs"
    by auto
  then show ?case
    using Cons.IH [OF rest] by (simp add: step)
qed

lemma c_string_no_nul: "CHR 0x00 \<notin> set (c_string buf)"
  by (auto simp: c_string_def dest: set_takeWhileD)

lemma hash_c_string: "hash (c_string buf) = djb2_spec (c_string buf)"
  by (simp add: hash_def djb2_spec_def hash_loop_foldl c_string_no_nul)

text \<open>
  Claim C10. When a string-typed option is read successfully (the handle is open and the
  library answers \<^verbatim>\<open>SANE_STATUS_GOOD\<close>), \<open>get_sane_option_value\<close> returns the string and,
  in \<open>num_value\<close>, the djb2 hash of that same string; for an option of a numeric type
  (bool, int, fixed, button) the string field of the result is null, whatever the read
  answers.
\<close>

theorem get_sane_option_value_hash:
  assumes "descriptors w index = Some odesc"
    and "control_replies w = r # rs"
  shows "(od_type odesc = SANE_TYPE_STRING \<and> reply_status r = SANE_STATUS_GOOD \<longrightarrow>
           (\<exists>s. str (fst (get_sane_option_value (Some hdl) index w)) = Some s \<and>
                num_value (fst (get_sane_option_value (Some hdl) index w)) = djb2_spec s \<and>
                s = c_string (take (nat (od_size odesc)) (reply_bytes r))))
       \<and> (is_numeric (od_type odesc) \<longrightarrow>
           str (fst (get_sane_option_value (Some hdl) index w)) = None)"
  using assms
  by (auto simp: get_sane_option_value_def sane_get_option_descriptor_def
      sane_control_option_def sane_option_value_init_def is_numeric_def hash_c_string
      Let_def)

theorem get_sane_option_value_hash_witness:
  "str (fst (get_sane_option_value (Some ()) 5
      \<lparr>descriptors = (\<lambda>n. if n = 5 then Some \<lparr>od_name = Some ''mode'',
           od_type = SANE_TYPE_STRING, od_size = 16, od_active = True\<rparr> else None),
       control_replies = [\<lparr>reply_status = SANE_STATUS_GOOD, reply_word = 0,
           reply_bytes = ''idle''\<rparr>],
       open_replies = [], fork_fails = False, events = []\<rparr>)) = Some ''idle''
   \<and> num_value (fst (get_sane_option_value (Some ()) 5
      \<lparr>descriptors = (\<lambda>n. if n = 5 then Some \<lparr>od_name = Some ''mode'',
           od_type = SANE_TYPE_STRING, od_size = 16, od_active = True\<rparr> else None),
       control_replies = [\<lparr>reply_status = SANE_STATUS_GOOD, reply_word = 0,
           reply_bytes = ''idle''\<rparr>],
       open_replies = [], fork_fails = False, events = []\<rparr>)) = 6385326851"
  using get_sane_option_value_hash [of
      "\<lparr>descriptors = (\<lambda>n. if n = 5 then Some \<lparr>od_name = Some ''mode'',
           od_type = SANE_TYPE_STRING, od_size = 16, od_active = True\<rparr> else None),
       control_replies = [\<lparr>reply_status = SANE_STATUS_GOOD, reply_word = 0,
           reply_bytes = ''idle''\<rparr>],
       open_replies = [], fork_fails = False, events = []\<rparr>"
      5
      "\<lparr>od_name = Some ''mode'', od_type = SANE_TYPE_STRING, od_size = 16,
        od_active = True\<rparr>"
      "\<lparr>reply_status = SANE_STATUS_GOOD, reply_word = 0, reply_bytes = ''idle''\<rparr>"
      "[]" "()"]
  by (simp add: c_string_def djb2_spec_def char_value_def)

section \<open>Facts about the dispatcher and one rule of a pass\<close>

lemma emit_fork_fails [simp]: "fork_fails (emit e hdl w) = fork_fails w"
  by (simp add: emit_def)

lemma emit_events [simp]: "events (emit e hdl w) = events w @ [(e, hdl)]"
  by (simp add: emit_def)

lemma emit_open_replies [simp]: "open_replies (emit e hdl w) = open_replies w"
  by (simp add: emit_def)

lemma run_script_state:
  "fst (run_script x s e st w) = st\<lparr>triggered := False, triggered_option := - 1\<rparr>"
  by (simp add: run_script_def Let_def)

lemma release_device_state: "fst (release_device e st w) = st\<lparr>h := None\<rparr>"
  by (simp add: release_device_def)

lemma reopen_device_state:
  "reopen_device st w = Inr (st', w') \<Longrightarrow> st' = st \<or> st' = st\<lparr>h := Some ()\<rparr>"
  by (auto simp: reopen_device_def Let_def split: if_splits)

lemma dispatch_InrD:
  assumes "dispatch x odesc st w = Inr (st', w')"
  shows "\<exists>envp w1 s w3.
           build_environment x odesc st w = Inr (envp, w1) \<and>
           script (opts st ! nat (triggered_option st)) = Some s \<and> s \<noteq> [] \<and>
           0 \<le> triggered_option st \<and>
           triggered_option st < int (num_of_options_with_scripts st) \<and>
           num_of_options_with_scripts st \<le> length (opts st) \<and>
           run_script x (make_script_path_abs x s) envp (st\<lparr>h := None\<rparr>)
             (snd (release_device envp st w1)) =
             (st\<lparr>h := None, triggered := False, triggered_option := - 1\<rparr>, w3) \<and>
           reopen_device (st\<lparr>h := None, triggered := False, triggered_option := - 1\<rparr>) w3 =
             Inr (st', w')"
proof -
  from assms obtain envp w1 where b: "build_environment x odesc st w = Inr (envp, w1)"
    by (auto simp: dispatch_def split: if_splits sum.splits)
  obtain st2 w2 where rd: "release_device envp st w1 = (st2, w2)"
    by (cases "release_device envp st w1")
  have st2: "st2 = st\<lparr>h := None\<rparr>"
    using release_device_state [of envp st w1] rd by simp
  from assms b rd st2 obtain s where
    s: "script (opts st ! nat (triggered_option st)) = Some s" "s \<noteq> []"
    by (auto simp: dispatch_def split: if_splits option.splits)
  obtain st3 w3 where rs: "run_script x (make_script_path_abs x s) envp st2 w2 = (st3, w3)"
    by (cases "run_script x (make_script_path_abs x s) envp st2 w2")
  have st3: "st3 = st\<lparr>h := None, triggered := False, triggered_option := - 1\<rparr>"
    using run_script_state [of x "make_script_path_abs x s" envp st2 w2] rs st2 by simp
  from assms b rd st2 s rs have "reopen_device st3 w3 = Inr (st', w')"
    by (auto simp: dispatch_def split: if_splits)
  moreover from assms have "0 \<le> triggered_option st"
    "triggered_option st < int (num_of_options_with_scripts st)"
    "num_of_options_with_scripts st \<le> length (opts st)"
    by (auto simp: dispatch_def split: if_splits)
  ultimately show ?thesis
    using b s rs rd st2 st3 by auto
qed

lemma dispatch_state:
  assumes "dispatch x odesc st w = Inr (st', w')"
  shows "st' = st\<lparr>h := None, triggered := False, triggered_option := - 1\<rparr> \<or>
         st' = st\<lparr>h := Some (), triggered := False, triggered_option := - 1\<rparr>"
proof -
  from dispatch_InrD [OF assms] obtain w3 where
    "reopen_device (st\<lparr>h := None, triggered := False, triggered_option := - 1\<rparr>) w3 =
       Inr (st', w')"
    by blast
  from reopen_device_state [OF this] show ?thesis by auto
qed

lemma poll_option_InrD:
  assumes "poll_option x si st w = Inr (st', w')"
  shows "si < length (opts st) \<and>
    (\<exists>odesc. sane_get_option_descriptor w (h st) (number (opts st ! si)) = Some odesc \<and>
      ((script (opts st ! si) = None \<or> script (opts st ! si) = Some []) \<and> st' = st \<and> w' = w \<or>
       (\<exists>s v w1 fire. script (opts st ! si) = Some s \<and> s \<noteq> [] \<and>
          current_value si st w = (v, w1) \<and>
          value_trigger x odesc (opts st ! si) v = Inr fire \<and>
          (if triggered (checked fire si v st) \<and> 0 \<le> triggered_option (checked fire si v st)
           then dispatch x odesc (checked fire si v st)
                  (if fire then emit Cond_broadcast (h st) w1 else w1) = Inr (st', w')
           else st' = checked fire si v st \<and> w' = w1))))"
  using assms
  by (auto simp: poll_option_def set_trigger_def checked_def Let_def
      split: if_splits option.splits sum.splits prod.splits)

lemma poll_option_fields:
  assumes "poll_option x si st w = Inr (st', w')"
  shows "num_of_options_with_scripts st' = num_of_options_with_scripts st"
    and "\<exists>v. opts st' = (opts st)[si := (opts st ! si)\<lparr>opt_value := v\<rparr>]"
    and "dev_functions st' = dev_functions st"
    and "num_of_options_with_functions st' = num_of_options_with_functions st"
    and "num_of_options st' = num_of_options st"
    and "dev st' = dev st"
proof -
  have skip: "\<exists>v. opts st = (opts st)[si := (opts st ! si)\<lparr>opt_value := v\<rparr>]"
    by (rule exI [of _ "opt_value (opts st ! si)"]) simp
  from poll_option_InrD [OF assms]
  show "num_of_options_with_scripts st' = num_of_options_with_scripts st"
    and "dev_functions st' = dev_functions st"
    and "num_of_options_with_functions st' = num_of_options_with_functions st"
    and "num_of_options st' = num_of_options st"
    and "dev st' = dev st"
    by (auto simp: checked_def split: if_splits dest!: dispatch_state)
  from poll_option_InrD [OF assms]
  have "opts st' = opts st \<or> (\<exists>v. opts st' = (opts st)[si := (opts st ! si)\<lparr>opt_value := v\<rparr>])"
    by (auto simp: checked_def split: if_splits dest!: dispatch_state)
  with skip show "\<exists>v. opts st' = (opts st)[si := (opts st ! si)\<lparr>opt_value := v\<rparr>]"
    by auto
qed

lemma poll_option_numeric:
  assumes "si < length (opts st)"
    and "sane_get_option_descriptor w (h st) (number (opts st ! si)) = Some odesc"
    and "is_numeric (od_type odesc)"
    and "script (opts st ! si) = Some s" and "s \<noteq> []"
    and "\<not> triggered st"
  shows "poll_option x si st w =
     (if num_value (from_value (opts st ! si)) = num_value (opt_value (opts st ! si)) \<and>
         num_value (to_value (opts st ! si)) = num_value (fst (current_value si st w))
      then dispatch x odesc
             (st\<lparr>triggered := True, triggered_option := int si,
                 opts := (opts st)[si := (opts st ! si)\<lparr>opt_value :=
                   fst (current_value si st w)\<rparr>]\<rparr>)
             (emit Cond_broadcast (h st) (snd (current_value si st w)))
      else Inr (st\<lparr>opts := (opts st)[si := (opts st ! si)\<lparr>opt_value :=
                   fst (current_value si st w)\<rparr>]\<rparr>,
                snd (current_value si st w)))"
  using assms
  by (simp add: poll_option_def value_trigger_def set_trigger_def Let_def
      split: prod.splits)

section \<open>Evaluating the model on the sample device\<close>

lemmas poll_defs = sane_poll_round_def poll_option_def current_value_def got_already_def
  get_sane_option_value_def sane_get_option_descriptor_def sane_control_option_def
  value_trigger_def set_trigger_def is_numeric_def sane_option_value_init_def
  emit_def Let_def

lemmas sample_defs = sample_externals_def sample_device_def polling_thread_def
  numeric_rule_def numeric_reply_def button_descriptor_def mode_descriptor_def

lemmas dispatch_defs = dispatch_def build_environment_def number_of_envs_def
  fixed_entries_def entry_PATH_def entry_PWD_def entry_USER_def entry_HOME_def
  entry_device_def entry_action_def put_env_def snprintf_NAME_MAX_def printf_s_def
  release_device_def run_script_def reopen_device_def

lemma replicate_7: "replicate 7 v = [v, v, v, v, v, v, v]"
  by (simp add: numeral_eq_Suc)

lemma replicate_8: "replicate 8 v = [v, v, v, v, v, v, v, v]"
  by (simp add: numeral_eq_Suc)

lemma printf_lu_0: "printf_lu 0 = ''0''"
  by (simp add: printf_lu_def)

lemma idle_round:
  assumes "\<not> (a = 0 \<and> v = 1)"
  shows "sane_poll_round sample_externals
     (polling_thread [numeric_rule 3 0 1 a ''/tmp/s.sh''] [])
     ((sample_device (numeric_reply v # rs))\<lparr>events := es\<rparr>) =
   Inr (polling_thread [numeric_rule 3 0 1 v ''/tmp/s.sh''] [],
        (sample_device rs)\<lparr>events := es @
          [(Control_option 3, Some ()), (Mutex_unlock, Some ()), (Usleep, Some ()),
           (Mutex_lock, Some ())]\<rparr>)"
  using assms by (auto simp: poll_defs sample_defs)

lemma firing_round:
  shows "sane_poll_round sample_externals
     (polling_thread [numeric_rule 3 0 1 0 ''/tmp/s.sh''] [])
     ((sample_device (numeric_reply 1 # rs))\<lparr>events := es\<rparr>) =
   Inr (polling_thread [numeric_rule 3 0 1 1 ''/tmp/s.sh''] [],
        (sample_device rs)\<lparr>events := es @
          [(Control_option 3, Some ()), (Cond_broadcast, Some ()),
           (Dbus_signal SCANBD_DBUS_SIGNAL_SCAN_BEGIN [Some ''dev0''], Some ()),
           (Dbus_signal SCANBD_DBUS_SIGNAL_TRIGGER sample_environment, Some ()),
           (Sane_close, Some ()), (Mutex_unlock, None), (Usleep, None),
           (Fork ''/tmp/s.sh'' sample_environment, None), (Waitpid, None),
           (Mutex_lock, None), (Cond_broadcast, None), (Mutex_unlock, None), (Usleep, None),
           (Dbus_signal SCANBD_DBUS_SIGNAL_SCAN_END [Some ''dev0''], None),
           (Mutex_lock, None), (Sane_open, None),
           (Mutex_unlock, Some ()), (Usleep, Some ()), (Mutex_lock, Some ())]\<rparr>)"
  by (simp add: poll_defs sample_defs dispatch_defs sample_environment_def replicate_7)

lemma sample_device_events: "sample_device rs = (sample_device rs)\<lparr>events := []\<rparr>"
  by (simp add: sample_device_def)

lemma sane_poll_rounds_numeral:
  "sane_poll_rounds x (numeral k) st w =
     (case sane_poll_round x st w of
        Inl err \<Rightarrow> Inl err
      | Inr (st', w') \<Rightarrow> sane_poll_rounds x (pred_numeral k) st' w')"
  by (simp add: numeral_eq_Suc)

lemma button_rounds_2:
  "sane_poll_rounds sample_externals 2
     (polling_thread [numeric_rule 3 0 1 0 ''/tmp/s.sh''] [])
     (sample_device (map numeric_reply [0, 0, 1, 1, 0])) =
   Inr (polling_thread [numeric_rule 3 0 1 0 ''/tmp/s.sh''] [],
        (sample_device (map numeric_reply [1, 1, 0]))\<lparr>events :=
          [(Control_option 3, Some ()), (Mutex_unlock, Some ()), (Usleep, Some ()),
           (Mutex_lock, Some ()),
           (Control_option 3, Some ()), (Mutex_unlock, Some ()), (Usleep, Some ()),
           (Mutex_lock, Some ())]\<rparr>)"
  by (subst sample_device_events) (simp add: numeral_2_eq_2 idle_round)

lemma button_rounds_3:
  "sane_poll_rounds sample_externals 3
     (polling_thread [numeric_rule 3 0 1 0 ''/tmp/s.sh''] [])
     (sample_device (map numeric_reply [0, 0, 1, 1, 0])) =
   Inr (polling_thread [numeric_rule 3 0 1 1 ''/tmp/s.sh''] [],
        (sample_device (map numeric_reply [1, 0]))\<lparr>events :=
          [(Control_option 3, Some ()), (Mutex_unlock, Some ()), (Usleep, Some ()),
           (Mutex_lock, Some ()),
           (Control_option 3, Some ()), (Mutex_unlock, Some ()), (Usleep, Some ()),
           (Mutex_lock, Some ()),
           (Control_option 3, Some ()), (Cond_broadcast, Some ()),
           (Dbus_signal SCANBD_DBUS_SIGNAL_SCAN_BEGIN [Some ''dev0''], Some ()),
           (Dbus_signal SCANBD_DBUS_SIGNAL_TRIGGER sample_environment, Some ()),
           (Sane_close, Some ()), (Mutex_unlock, None), (Usleep, None),
           (Fork ''/tmp/s.sh'' sample_environment, None), (Waitpid, None),
           (Mutex_lock, None), (Cond_broadcast, None), (Mutex_unlock, None), (Usleep, None),
           (Dbus_signal SCANBD_DBUS_SIGNAL_SCAN_END [Some ''dev0''], None),
           (Mutex_lock, None), (Sane_open, None),
           (Mutex_unlock, Some ()), (Usleep, Some ()), (Mutex_lock, Some ())]\<rparr>)"
  by (subst sample_device_events) (simp add: sane_poll_rounds_numeral idle_round firing_round)

lemma button_rounds_5:
  "sane_poll_rounds sample_externals 5
     (polling_thread [numeric_rule 3 0 1 0 ''/tmp/s.sh''] [])
     (sample_device (map numeric_reply [0, 0, 1, 1, 0])) =
   Inr (polling_thread [numeric_rule 3 0 1 0 ''/tmp/s.sh''] [],
        (sample_device [])\<lparr>events :=
          [(Control_option 3, Some ()), (Mutex_unlock, Some ()), (Usleep, Some ()),
           (Mutex_lock, Some ()),
           (Control_option 3, Some ()), (Mutex_unlock, Some ()), (Usleep, Some ()),
           (Mutex_lock, Some ()),
           (Control_option 3, Some ()), (Cond_broadcast, Some ()),
           (Dbus_signal SCANBD_DBUS_SIGNAL_SCAN_BEGIN [Some ''dev0''], Some ()),
           (Dbus_signal SCANBD_DBUS_SIGNAL_TRIGGER sample_environment, Some ()),
           (Sane_close, Some ()), (Mutex_unlock, None), (Usleep, None),
           (Fork ''/tmp/s.sh'' sample_environment, None), (Waitpid, None),
           (Mutex_lock, None), (Cond_broadcast, None), (Mutex_unlock, None), (Usleep, None),
           (Dbus_signal SCANBD_DBUS_SIGNAL_SCAN_END [Some ''dev0''], None),
           (Mutex_lock, None), (Sane_open, None),
           (Mutex_unlock, Some ()), (Usleep, Some ()), (Mutex_lock, Some ()),
           (Control_option 3, Some ()), (Mutex_unlock, Some ()), (Usleep, Some ()),
           (Mutex_lock, Some ()),
           (Control_option 3, Some ()), (Mutex_unlock, Some ()), (Usleep, Some ()),
           (Mutex_lock, Some ())]\<rparr>)"
  by (subst sample_device_events)
    (simp add: sane_poll_rounds_numeral idle_round firing_round)

lemma button_round_3:
  "sane_poll_round sample_externals
     (polling_thread [numeric_rule 3 0 1 0 ''/tmp/s.sh''] [])
     (sample_device [numeric_reply 1]) =
   Inr (polling_thread [numeric_rule 3 0 1 1 ''/tmp/s.sh''] [],
        (sample_device [])\<lparr>events :=
          [(Control_option 3, Some ()), (Cond_broadcast, Some ()),
           (Dbus_signal SCANBD_DBUS_SIGNAL_SCAN_BEGIN [Some ''dev0''], Some ()),
           (Dbus_signal SCANBD_DBUS_SIGNAL_TRIGGER sample_environment, Some ()),
           (Sane_close, Some ()), (Mutex_unlock, None), (Usleep, None),
           (Fork ''/tmp/s.sh'' sample_environment, None), (Waitpid, None),
           (Mutex_lock, None), (Cond_broadcast, None), (Mutex_unlock, None), (Usleep, None),
           (Dbus_signal SCANBD_DBUS_SIGNAL_SCAN_END [Some ''dev0''], None),
           (Mutex_lock, None), (Sane_open, None),
           (Mutex_unlock, Some ()), (Usleep, Some ()), (Mutex_lock, Some ())]\<rparr>)"
  by (subst sample_device_events) (simp add: firing_round)

lemma armed_slot:
  "sane_trigger_action 0 0
     \<lparr>num_devices = 1,
      sane_poll_threads = Some [polling_thread [numeric_rule 3 0 1 0 ''/tmp/s.sh''] []]\<rparr> =
   ([(Lock_sane_mutex, Some (False, - 1)), (Lock_mutex 0, Some (False, - 1)),
     (Broadcast_cv 0, Some (True, 0)), (Unlock_mutex 0, Some (True, 0)),
     (Unlock_sane_mutex, Some (True, 0))],
    Returned,
    \<lparr>num_devices = 1,
     sane_poll_threads = Some [(polling_thread [numeric_rule 3 0 1 0 ''/tmp/s.sh''] [])
        \<lparr>triggered := True, triggered_option := 0\<rparr>]\<rparr>)"
  by (simp add: sane_trigger_action_def trigger_when_polling_def trigger_when_idle_def
      slot_flags_def polling_thread_def Let_def)

lemma sample_build_environment:
  "build_environment sample_externals button_descriptor fired_thread (sample_device rs) =
     Inr (Some ''SCANBD_FUNCTION=0'' # sample_environment, sample_device rs)"
  by (simp add: fired_thread_def sample_defs build_environment_def number_of_envs_def
      function_entry_def sane_get_option_descriptor_def sane_option_value_init_def
      fixed_entries_def entry_PATH_def entry_PWD_def entry_USER_def entry_HOME_def
      entry_device_def entry_action_def put_env_def snprintf_NAME_MAX_def printf_s_def
      printf_lu_0 replicate_8 sample_environment_def)

lemma sample_dispatch_log:
  "log_of (dispatch sample_externals button_descriptor fired_thread (sample_device [])) =
     [(Dbus_signal SCANBD_DBUS_SIGNAL_SCAN_BEGIN [Some ''dev0''], Some ()),
      (Dbus_signal SCANBD_DBUS_SIGNAL_TRIGGER
         (Some ''SCANBD_FUNCTION=0'' # sample_environment), Some ()),
      (Sane_close, Some ()), (Mutex_unlock, None), (Usleep, None),
      (Fork ''/tmp/s.sh'' (Some ''SCANBD_FUNCTION=0'' # sample_environment), None),
      (Waitpid, None), (Mutex_lock, None), (Cond_broadcast, None), (Mutex_unlock, None),
      (Usleep, None), (Dbus_signal SCANBD_DBUS_SIGNAL_SCAN_END [Some ''dev0''], None),
      (Mutex_lock, None), (Sane_open, None)]"
  by (simp add: dispatch_def sample_build_environment)
    (simp add: fired_thread_def sample_defs release_device_def run_script_def
      reopen_device_def emit_def Let_def log_of_def)

lemma upt_0_2: "[0..<2] = [0, Suc 0]"
  by (simp add: upt_rec numeral_2_eq_2)

lemma two_actions_round:
  "poll_options sample_externals [0..<2]
     (polling_thread [numeric_rule 3 0 1 0 ''/tmp/a.sh'', numeric_rule 3 0 1 0 ''/tmp/b.sh''] [])
     (sample_device [numeric_reply 1]) =
   Inr (polling_thread
          [numeric_rule 3 0 1 1 ''/tmp/a.sh'', numeric_rule 3 0 1 1 ''/tmp/b.sh''] [],
        (sample_device [])\<lparr>events :=
          [(Control_option 3, Some ()), (Cond_broadcast, Some ()),
           (Dbus_signal SCANBD_DBUS_SIGNAL_SCAN_BEGIN [Some ''dev0''], Some ()),
           (Dbus_signal SCANBD_DBUS_SIGNAL_TRIGGER sample_environment, Some ()),
           (Sane_close, Some ()), (Mutex_unlock, None), (Usleep, None),
           (Fork ''/tmp/a.sh'' sample_environment, None), (Waitpid, None),
           (Mutex_lock, None), (Cond_broadcast, None), (Mutex_unlock, None), (Usleep, None),
           (Dbus_signal SCANBD_DBUS_SIGNAL_SCAN_END [Some ''dev0''], None),
           (Mutex_lock, None), (Sane_open, None),
           (Cond_broadcast, Some ()),
           (Dbus_signal SCANBD_DBUS_SIGNAL_SCAN_BEGIN [Some ''dev0''], Some ()),
           (Dbus_signal SCANBD_DBUS_SIGNAL_TRIGGER sample_environment, Some ()),
           (Sane_close, Some ()), (Mutex_unlock, None), (Usleep, None),
           (Fork ''/tmp/b.sh'' sample_environment, None), (Waitpid, None),
           (Mutex_lock, None), (Cond_broadcast, None), (Mutex_unlock, None), (Usleep, None),
           (Dbus_signal SCANBD_DBUS_SIGNAL_SCAN_END [Some ''dev0''], None),
           (Mutex_lock, None), (Sane_open, None)]\<rparr>)"
  unfolding upt_0_2
  by (simp add: poll_defs sample_defs dispatch_defs replicate_7 sample_environment_def)

section \<open>The numeric trigger\<close>

text \<open>
  Claim C1. For a rule on a numeric option (bool, int, fixed, button) that has a script,
  with no trigger pending on the slot, the check of the rule enters the dispatcher with
  \<open>triggered_option\<close> set to the rule's index exactly when the stored value equals the
  rule's from value and the value just read equals its to value; in both cases the value
  just read replaces the stored one. On the sample device, the rule from 0 to 1 with
  stored value 0 and the successive readings 0, 0, 1, 1, 0 forks nothing and sends no
  trigger signal in the first two turns, forks the script once and sends one trigger
  signal in the third turn, and does neither again in the fourth and fifth turn; all five
  values are read and the stored value ends as 0.
\<close>

theorem numeric_rule_fires_on_transition:
  "(si < length (opts st) \<and>
    sane_get_option_descriptor w (h st) (number (opts st ! si)) = Some odesc \<and>
    is_numeric (od_type odesc) \<and> script (opts st ! si) = Some s \<and> s \<noteq> [] \<and>
    \<not> triggered st \<longrightarrow>
    poll_option x si st w =
     (if num_value (from_value (opts st ! si)) = num_value (opt_value (opts st ! si)) \<and>
         num_value (to_value (opts st ! si)) = num_value (fst (current_value si st w))
      then dispatch x odesc
             (st\<lparr>triggered := True, triggered_option := int si,
                 opts := (opts st)[si := (opts st ! si)\<lparr>opt_value :=
                   fst (current_value si st w)\<rparr>]\<rparr>)
             (emit Cond_broadcast (h st) (snd (current_value si st w)))
      else Inr (st\<lparr>opts := (opts st)[si := (opts st ! si)\<lparr>opt_value :=
                   fst (current_value si st w)\<rparr>]\<rparr>,
                snd (current_value si st w))))
   \<and> spawns (log_of (sane_poll_rounds sample_externals 2
         (polling_thread [numeric_rule 3 0 1 0 ''/tmp/s.sh''] [])
         (sample_device (map numeric_reply [0, 0, 1, 1, 0])))) = []
   \<and> trigger_signals (log_of (sane_poll_rounds sample_externals 2
         (polling_thread [numeric_rule 3 0 1 0 ''/tmp/s.sh''] [])
         (sample_device (map numeric_reply [0, 0, 1, 1, 0])))) = []
   \<and> queries (log_of (sane_poll_rounds sample_externals 2
         (polling_thread [numeric_rule 3 0 1 0 ''/tmp/s.sh''] [])
         (sample_device (map numeric_reply [0, 0, 1, 1, 0])))) = [3, 3]
   \<and> spawns (log_of (sane_poll_rounds sample_externals 3
         (polling_thread [numeric_rule 3 0 1 0 ''/tmp/s.sh''] [])
         (sample_device (map numeric_reply [0, 0, 1, 1, 0])))) = [''/tmp/s.sh'']
   \<and> trigger_signals (log_of (sane_poll_rounds sample_externals 3
         (polling_thread [numeric_rule 3 0 1 0 ''/tmp/s.sh''] [])
         (sample_device (map numeric_reply [0, 0, 1, 1, 0])))) = [sample_environment]
   \<and> spawns (log_of (sane_poll_rounds sample_externals 5
         (polling_thread [numeric_rule 3 0 1 0 ''/tmp/s.sh''] [])
         (sample_device (map numeric_reply [0, 0, 1, 1, 0])))) = [''/tmp/s.sh'']
   \<and> trigger_signals (log_of (sane_poll_rounds sample_externals 5
         (polling_thread [numeric_rule 3 0 1 0 ''/tmp/s.sh''] [])
         (sample_device (map numeric_reply [0, 0, 1, 1, 0])))) = [sample_environment]
   \<and> queries (log_of (sane_poll_rounds sample_externals 5
         (polling_thread [numeric_rule 3 0 1 0 ''/tmp/s.sh''] [])
         (sample_device (map numeric_reply [0, 0, 1, 1, 0])))) = [3, 3, 3, 3, 3]
   \<and> opts_of (sane_poll_rounds sample_externals 5
         (polling_thread [numeric_rule 3 0 1 0 ''/tmp/s.sh''] [])
         (sample_device (map numeric_reply [0, 0, 1, 1, 0]))) =
       [numeric_rule 3 0 1 0 ''/tmp/s.sh'']"
proof (intro conjI impI)
  assume "si < length (opts st) \<and>
    sane_get_option_descriptor w (h st) (number (opts st ! si)) = Some odesc \<and>
    is_numeric (od_type odesc) \<and> script (opts st ! si) = Some s \<and> s \<noteq> [] \<and>
    \<not> triggered st"
  then show "poll_option x si st w =
     (if num_value (from_value (opts st ! si)) = num_value (opt_value (opts st ! si)) \<and>
         num_value (to_value (opts st ! si)) = num_value (fst (current_value si st w))
      then dispatch x odesc
             (st\<lparr>triggered := True, triggered_option := int si,
                 opts := (opts st)[si := (opts st ! si)\<lparr>opt_value :=
                   fst (current_value si st w)\<rparr>]\<rparr>)
             (emit Cond_broadcast (h st) (snd (current_value si st w)))
      else Inr (st\<lparr>opts := (opts st)[si := (opts st ! si)\<lparr>opt_value :=
                   fst (current_value si st w)\<rparr>]\<rparr>,
                snd (current_value si st w)))"
    using poll_option_numeric [of si st w odesc s x] by blast
qed (unfold button_rounds_2 button_rounds_3 button_rounds_5, simp_all add: log_of_def opts_of_def polling_thread_def)

theorem numeric_rule_fires_on_transition_witness:
  "spawns (log_of (poll_option sample_externals 0
      (polling_thread [numeric_rule 3 0 1 0 ''/tmp/s.sh''] [])
      (sample_device (map numeric_reply [1, 1, 0])))) = [''/tmp/s.sh'']
   \<and> opts_of (poll_option sample_externals 0
      (polling_thread [numeric_rule 3 0 1 0 ''/tmp/s.sh''] [])
      (sample_device (map numeric_reply [1, 1, 0]))) = [numeric_rule 3 0 1 1 ''/tmp/s.sh'']
   \<and> spawns (log_of (poll_option sample_externals 0
      (polling_thread [numeric_rule 3 0 1 1 ''/tmp/s.sh''] [])
      (sample_device (map numeric_reply [1, 0])))) = []
   \<and> opts_of (poll_option sample_externals 0
      (polling_thread [numeric_rule 3 0 1 1 ''/tmp/s.sh''] [])
      (sample_device (map numeric_reply [1, 0]))) = [numeric_rule 3 0 1 1 ''/tmp/s.sh'']"
  using numeric_rule_fires_on_transition [of 0
      "polling_thread [numeric_rule 3 0 1 0 ''/tmp/s.sh''] []"
      "sample_device (map numeric_reply [1, 1, 0])" button_descriptor "''/tmp/s.sh''"
      sample_externals]
    numeric_rule_fires_on_transition [of 0
      "polling_thread [numeric_rule 3 0 1 1 ''/tmp/s.sh''] []"
      "sample_device (map numeric_reply [1, 0])" button_descriptor "''/tmp/s.sh''"
      sample_externals]
  by (simp add: poll_defs sample_defs dispatch_defs replicate_7 log_of_def opts_of_def)

section \<open>The external trigger\<close>

text \<open>
  Claim C2. \<open>sane_trigger_action\<close> returns without a change for a device index not
  below \<open>num_devices\<close> and for an action index not below the slot's rule count. For
  valid indices: without a poller set it waits on the global condition variable, holding
  nothing but what the wait releases; with a poller set and a trigger pending on the slot
  it waits on the slot's condition variable, and each wake-up tests the flag again; with
  no trigger pending it sets \<open>triggered\<close> and \<open>triggered_option = a\<close>, and the
  broadcast on the slot's condition variable and the release of the slot's mutex that
  follow are both logged with the flags already set. The continuation after a wake-up on
  the global condition variable, \<open>trigger_when_polling\<close>, does the same.
\<close>

theorem sane_trigger_action_sets_trigger:
  "(0 \<le> d \<and> 0 \<le> a \<and> num_devices g \<le> d \<longrightarrow>
      snd (sane_trigger_action d a g) = (Returned, g))
   \<and> (0 \<le> d \<and> d < num_devices g \<and> sane_poll_threads g = Some ths \<and>
       nat d < length ths \<and> int (num_of_options_with_scripts (ths ! nat d)) \<le> a \<longrightarrow>
      snd (sane_trigger_action d a g) = (Returned, g))
   \<and> (0 \<le> d \<and> d < num_devices g \<and> 0 \<le> a \<and> sane_poll_threads g = None \<longrightarrow>
      sane_trigger_action d a g =
        ([(Lock_sane_mutex, None), (Wait_sane_cv, None)], Waiting_sane_cv, g))
   \<and> (0 \<le> d \<and> d < num_devices g \<and> 0 \<le> a \<and> sane_poll_threads g = Some ths \<and>
       nat d < length ths \<and> a < int (num_of_options_with_scripts (ths ! nat d)) \<and>
       triggered (ths ! nat d) \<longrightarrow>
      sane_trigger_action d a g =
        ([(Lock_sane_mutex, Some (True, triggered_option (ths ! nat d))),
          (Lock_mutex (nat d), Some (True, triggered_option (ths ! nat d))),
          (Wait_cv (nat d), Some (True, triggered_option (ths ! nat d)))],
         Waiting_cv, g)
      \<and> trigger_when_idle (nat d) a g =
        ([(Wait_cv (nat d), Some (True, triggered_option (ths ! nat d)))], Waiting_cv, g))
   \<and> (0 \<le> d \<and> d < num_devices g \<and> 0 \<le> a \<and> sane_poll_threads g = Some ths \<and>
       nat d < length ths \<and> a < int (num_of_options_with_scripts (ths ! nat d)) \<and>
       \<not> triggered (ths ! nat d) \<longrightarrow>
      sane_trigger_action d a g =
        ([(Lock_sane_mutex, Some (False, triggered_option (ths ! nat d))),
          (Lock_mutex (nat d), Some (False, triggered_option (ths ! nat d))),
          (Broadcast_cv (nat d), Some (True, a)),
          (Unlock_mutex (nat d), Some (True, a)),
          (Unlock_sane_mutex, Some (True, a))],
         Returned, g\<lparr>sane_poll_threads := Some (armed ths (nat d) a)\<rparr>)
      \<and> trigger_when_polling (nat d) a g =
        ([(Lock_mutex (nat d), Some (False, triggered_option (ths ! nat d))),
          (Broadcast_cv (nat d), Some (True, a)),
          (Unlock_mutex (nat d), Some (True, a)),
          (Unlock_sane_mutex, Some (True, a))],
         Returned, g\<lparr>sane_poll_threads := Some (armed ths (nat d) a)\<rparr>)
      \<and> trigger_when_idle (nat d) a g =
        ([(Broadcast_cv (nat d), Some (True, a)),
          (Unlock_mutex (nat d), Some (True, a)),
          (Unlock_sane_mutex, Some (True, a))],
         Returned, g\<lparr>sane_poll_threads := Some (armed ths (nat d) a)\<rparr>))"
proof (intro conjI impI; (elim conjE)?)
  assume "0 \<le> d" "0 \<le> a" "num_devices g \<le> d"
  then show "snd (sane_trigger_action d a g) = (Returned, g)"
    by (simp add: sane_trigger_action_def)
next
  assume "0 \<le> d" "d < num_devices g" "sane_poll_threads g = Some ths" "nat d < length ths"
    "int (num_of_options_with_scripts (ths ! nat d)) \<le> a"
  then show "snd (sane_trigger_action d a g) = (Returned, g)"
    by (simp add: sane_trigger_action_def trigger_when_polling_def)
next
  assume "0 \<le> d" "d < num_devices g" "0 \<le> a" "sane_poll_threads g = None"
  then show "sane_trigger_action d a g =
        ([(Lock_sane_mutex, None), (Wait_sane_cv, None)], Waiting_sane_cv, g)"
    by (simp add: sane_trigger_action_def trigger_when_polling_def slot_flags_def)
next
  assume *: "0 \<le> d" "d < num_devices g" "0 \<le> a" "sane_poll_threads g = Some ths"
    "nat d < length ths" "a < int (num_of_options_with_scripts (ths ! nat d))"
    "triggered (ths ! nat d)"
  then show "sane_trigger_action d a g =
        ([(Lock_sane_mutex, Some (True, triggered_option (ths ! nat d))),
          (Lock_mutex (nat d), Some (True, triggered_option (ths ! nat d))),
          (Wait_cv (nat d), Some (True, triggered_option (ths ! nat d)))],
         Waiting_cv, g)"
    by (simp add: sane_trigger_action_def trigger_when_polling_def trigger_when_idle_def
        slot_flags_def)
  from * show "trigger_when_idle (nat d) a g =
        ([(Wait_cv (nat d), Some (True, triggered_option (ths ! nat d)))], Waiting_cv, g)"
    by (simp add: trigger_when_idle_def slot_flags_def)
next
  assume *: "0 \<le> d" "d < num_devices g" "0 \<le> a" "sane_poll_threads g = Some ths"
    "nat d < length ths" "a < int (num_of_options_with_scripts (ths ! nat d))"
    "\<not> triggered (ths ! nat d)"
  then show "sane_trigger_action d a g =
        ([(Lock_sane_mutex, Some (False, triggered_option (ths ! nat d))),
          (Lock_mutex (nat d), Some (False, triggered_option (ths ! nat d))),
          (Broadcast_cv (nat d), Some (True, a)),
          (Unlock_mutex (nat d), Some (True, a)),
          (Unlock_sane_mutex, Some (True, a))],
         Returned, g\<lparr>sane_poll_threads := Some (armed ths (nat d) a)\<rparr>)"
    by (simp add: sane_trigger_action_def trigger_when_polling_def trigger_when_idle_def
        slot_flags_def armed_def Let_def)
  from * show "trigger_when_polling (nat d) a g =
        ([(Lock_mutex (nat d), Some (False, triggered_option (ths ! nat d))),
          (Broadcast_cv (nat d), Some (True, a)),
          (Unlock_mutex (nat d), Some (True, a)),
          (Unlock_sane_mutex, Some (True, a))],
         Returned, g\<lparr>sane_poll_threads := Some (armed ths (nat d) a)\<rparr>)"
    by (simp add: trigger_when_polling_def trigger_when_idle_def
        slot_flags_def armed_def Let_def)
  from * show "trigger_when_idle (nat d) a g =
        ([(Broadcast_cv (nat d), Some (True, a)),
          (Unlock_mutex (nat d), Some (True, a)),
          (Unlock_sane_mutex, Some (True, a))],
         Returned, g\<lparr>sane_poll_threads := Some (armed ths (nat d) a)\<rparr>)"
    by (simp add: trigger_when_idle_def slot_flags_def armed_def Let_def)
qed

theorem sane_trigger_action_sets_trigger_witness:
  "sane_trigger_action 0 0
     \<lparr>num_devices = 1,
      sane_poll_threads = Some [polling_thread [numeric_rule 3 0 1 0 ''/tmp/s.sh''] []]\<rparr> =
   ([(Lock_sane_mutex, Some (False, - 1)), (Lock_mutex 0, Some (False, - 1)),
     (Broadcast_cv 0, Some (True, 0)), (Unlock_mutex 0, Some (True, 0)),
     (Unlock_sane_mutex, Some (True, 0))],
    Returned,
    \<lparr>num_devices = 1,
     sane_poll_threads = Some [(polling_thread [numeric_rule 3 0 1 0 ''/tmp/s.sh''] [])
        \<lparr>triggered := True, triggered_option := 0\<rparr>]\<rparr>)
   \<and> sane_trigger_action 0 0 \<lparr>num_devices = 1, sane_poll_threads = None\<rparr> =
       ([(Lock_sane_mutex, None), (Wait_sane_cv, None)], Waiting_sane_cv,
        \<lparr>num_devices = 1, sane_poll_threads = None\<rparr>)"
  using sane_trigger_action_sets_trigger [of 0 0
      "\<lparr>num_devices = 1,
        sane_poll_threads = Some [polling_thread [numeric_rule 3 0 1 0 ''/tmp/s.sh''] []]\<rparr>"
      "[polling_thread [numeric_rule 3 0 1 0 ''/tmp/s.sh''] []]"]
    sane_trigger_action_sets_trigger [of 0 0 "\<lparr>num_devices = 1, sane_poll_threads = None\<rparr>"]
  by (simp add: polling_thread_def armed_def)

section \<open>The invariant on the trigger fields\<close>

lemma trigger_invariant_cleared:
  "trigger_invariant (st\<lparr>h := hdl, triggered := False, triggered_option := - 1\<rparr>)"
  by (simp add: trigger_invariant_def)

lemma dispatch_invariant:
  assumes "dispatch x odesc st w = Inr (st', w')"
  shows "trigger_invariant st'"
  using dispatch_state [OF assms] by (auto simp: trigger_invariant_cleared)

lemma checked_invariant:
  assumes "si < num_of_options_with_scripts st" and "trigger_invariant st"
  shows "trigger_invariant (checked fire si v st)"
  using assms by (simp add: checked_def trigger_invariant_def)

lemma poll_option_invariant:
  assumes "poll_option x si st w = Inr (st', w')"
    and "si < num_of_options_with_scripts st"
    and "trigger_invariant st"
  shows "trigger_invariant st'"
proof -
  from poll_option_InrD [OF assms(1)] consider
    "st' = st"
    | odesc fire v w2 where "dispatch x odesc (checked fire si v st) w2 = Inr (st', w')"
    | fire v where "st' = checked fire si v st"
    by (auto split: if_splits)
  then show ?thesis
  proof cases
    case 1
    with assms(3) show ?thesis by simp
  next
    case 2
    then show ?thesis by (rule dispatch_invariant)
  next
    case 3
    with checked_invariant [OF assms(2,3)] show ?thesis by simp
  qed
qed

lemma poll_options_invariant:
  assumes "poll_options x sis st w = Inr (st', w')"
    and "\<forall>si \<in> set sis. si < num_of_options_with_scripts st"
    and "trigger_invariant st"
  shows "trigger_invariant st' \<and> num_of_options_with_scripts st' = num_of_options_with_scripts st"
  using assms
proof (induction sis arbitrary: st w)
  case Nil
  then show ?case by simp
next
  case (Cons si sis)
  from Cons.prems(1) obtain st1 w1 where
    step: "poll_option x si st w = Inr (st1, w1)" and
    rest: "poll_options x sis st1 w1 = Inr (st', w')"
    by (auto split: sum.splits)
  have n: "num_of_options_with_scripts st1 = num_of_options_with_scripts st"
    by (rule poll_option_fields(1) [OF step])
  have inv: "trigger_invariant st1"
    using poll_option_invariant [OF step] Cons.prems(2,3) by simp
  from Cons.IH [OF rest _ inv] Cons.prems(2) n show ?case
    by simp
qed

lemma sane_poll_round_invariant:
  assumes "sane_poll_round x st w = Inr (st', w')" and "trigger_invariant st"
  shows "trigger_invariant st'"
proof -
  from assms(1) obtain w1 where
    "poll_options x [0..<num_of_options_with_scripts st] st w = Inr (st', w1)"
    by (auto simp: sane_poll_round_def split: sum.splits)
  from poll_options_invariant [OF this _ assms(2)] show ?thesis by simp
qed

lemma trigger_when_idle_invariant:
  assumes "trigger_when_idle d a g = (evs, out, g')"
    and "sane_poll_threads g = Some ths"
    and "\<forall>i < length ths. trigger_invariant (ths ! i)"
    and "0 \<le> a" and "d < length ths \<longrightarrow> a < int (num_of_options_with_scripts (ths ! d))"
  shows "\<exists>ths'. sane_poll_threads g' = Some ths' \<and> length ths' = length ths \<and>
           (\<forall>i < length ths'. trigger_invariant (ths' ! i))"
  using assms
  by (auto simp: trigger_when_idle_def Let_def nth_list_update trigger_invariant_def
      split: if_splits)

lemma sane_trigger_action_invariant:
  assumes "sane_trigger_action d a g = (evs, out, g')"
    and "sane_poll_threads g = Some ths"
    and "\<forall>i < length ths. trigger_invariant (ths ! i)"
  shows "\<exists>ths'. sane_poll_threads g' = Some ths' \<and> length ths' = length ths \<and>
           (\<forall>i < length ths'. trigger_invariant (ths' ! i))"
proof (cases "0 \<le> d \<and> 0 \<le> a \<and> d < num_devices g \<and> nat d < length ths \<and>
               a < int (num_of_options_with_scripts (ths ! nat d))")
  case False
  with assms show ?thesis
    by (auto simp: sane_trigger_action_def trigger_when_polling_def split: if_splits)
next
  case True
  with assms(1,2) obtain evs' where
    "trigger_when_idle (nat d) a g = (evs', out, g')"
    by (auto simp: sane_trigger_action_def trigger_when_polling_def
        split: if_splits prod.splits)
  from trigger_when_idle_invariant [OF this assms(2,3)] True show ?thesis
    by simp
qed

text \<open>
  Claim C3. The invariant \<open>trigger_invariant\<close> (an index into the installed rules while
  \<open>triggered\<close>, \<open>-1\<close> otherwise) holds for a slot as \<open>start_sane_threads\<close> sets it
  up, after the poll comparison of an installed rule has set the trigger, for every slot
  of the poller set after a call of \<open>sane_trigger_action\<close> however it ends, after the
  dispatcher has cleared the trigger, and after every complete turn of the polling loop
  that started with it.
\<close>

theorem trigger_invariant_holds:
  "trigger_invariant (start_sane_thread device_name)
   \<and> (si < num_of_options_with_scripts st \<longrightarrow> trigger_invariant (fst (set_trigger si st w)))
   \<and> (sane_poll_threads g = Some ths \<and> (\<forall>i < length ths. trigger_invariant (ths ! i)) \<and>
         sane_trigger_action d a g = (evs, out, g') \<longrightarrow>
         (\<exists>ths'. sane_poll_threads g' = Some ths' \<and>
            (\<forall>i < length ths'. trigger_invariant (ths' ! i))))
   \<and> trigger_invariant (fst (run_script x s e st w))
   \<and> (trigger_invariant st \<and> sane_poll_round x st w = Inr (st', w') \<longrightarrow>
         trigger_invariant st')"
proof (intro conjI)
  show "trigger_invariant (start_sane_thread device_name)"
    by (simp add: trigger_invariant_def start_sane_thread_def)
  show "si < num_of_options_with_scripts st \<longrightarrow> trigger_invariant (fst (set_trigger si st w))"
    by (simp add: trigger_invariant_def set_trigger_def)
  show "sane_poll_threads g = Some ths \<and> (\<forall>i < length ths. trigger_invariant (ths ! i)) \<and>
         sane_trigger_action d a g = (evs, out, g') \<longrightarrow>
         (\<exists>ths'. sane_poll_threads g' = Some ths' \<and>
            (\<forall>i < length ths'. trigger_invariant (ths' ! i)))"
    using sane_trigger_action_invariant [of d a g evs out g' ths] by blast
  show "trigger_invariant (fst (run_script x s e st w))"
    by (simp add: run_script_state trigger_invariant_def)
  show "trigger_invariant st \<and> sane_poll_round x st w = Inr (st', w') \<longrightarrow> trigger_invariant st'"
    using sane_poll_round_invariant by blast
qed

theorem trigger_invariant_holds_witness:
  "trigger_invariant (fst (set_trigger 0
       (polling_thread [numeric_rule 3 0 1 0 ''/tmp/s.sh''] [])
       (sample_device [numeric_reply 1])))
   \<and> trigger_invariant ((polling_thread [numeric_rule 3 0 1 0 ''/tmp/s.sh''] [])
        \<lparr>triggered := True, triggered_option := 0\<rparr>)
   \<and> trigger_invariant (polling_thread [numeric_rule 3 0 1 1 ''/tmp/s.sh''] [])"
proof -
  let ?T = "polling_thread [numeric_rule 3 0 1 0 ''/tmp/s.sh''] []"
  have T: "trigger_invariant ?T"
    by (simp add: trigger_invariant_def polling_thread_def)
  have n: "0 < num_of_options_with_scripts ?T"
    by (simp add: polling_thread_def)
  note inst = trigger_invariant_holds [of "''dev0''" 0 ?T "sample_device [numeric_reply 1]"
    "\<lparr>num_devices = 1, sane_poll_threads = Some [?T]\<rparr>" "[?T]" 0 0
    "[(Lock_sane_mutex, Some (False, - 1)), (Lock_mutex 0, Some (False, - 1)),
      (Broadcast_cv 0, Some (True, 0)), (Unlock_mutex 0, Some (True, 0)),
      (Unlock_sane_mutex, Some (True, 0))]"
    Returned
    "\<lparr>num_devices = 1,
      sane_poll_threads = Some [?T\<lparr>triggered := True, triggered_option := 0\<rparr>]\<rparr>"
    sample_externals "''/tmp/s.sh''" sample_environment
    "polling_thread [numeric_rule 3 0 1 1 ''/tmp/s.sh''] []"
    "(sample_device [])\<lparr>events :=
          [(Control_option 3, Some ()), (Cond_broadcast, Some ()),
           (Dbus_signal SCANBD_DBUS_SIGNAL_SCAN_BEGIN [Some ''dev0''], Some ()),
           (Dbus_signal SCANBD_DBUS_SIGNAL_TRIGGER sample_environment, Some ()),
           (Sane_close, Some ()), (Mutex_unlock, None), (Usleep, None),
           (Fork ''/tmp/s.sh'' sample_environment, None), (Waitpid, None),
           (Mutex_lock, None), (Cond_broadcast, None), (Mutex_unlock, None), (Usleep, None),
           (Dbus_signal SCANBD_DBUS_SIGNAL_SCAN_END [Some ''dev0''], None),
           (Mutex_lock, None), (Sane_open, None),
           (Mutex_unlock, Some ()), (Usleep, Some ()), (Mutex_lock, Some ())]\<rparr>"]
  from inst n have 1: "trigger_invariant (fst (set_trigger 0 ?T (sample_device [numeric_reply 1])))"
    by blast
  have "\<forall>i < length [?T]. trigger_invariant ([?T] ! i)"
    using T by simp
  with inst armed_slot have "\<exists>ths'. Some [?T\<lparr>triggered := True, triggered_option := 0\<rparr>] = Some ths' \<and>
      (\<forall>i < length ths'. trigger_invariant (ths' ! i))"
    by simp
  then have 2: "trigger_invariant (?T\<lparr>triggered := True, triggered_option := 0\<rparr>)"
    by auto
  from inst T button_round_3 have 3:
    "trigger_invariant (polling_thread [numeric_rule 3 0 1 1 ''/tmp/s.sh''] [])"
    by blast
  from 1 2 3 show ?thesis
    by simp
qed

section \<open>Discarding a string rule whose regex does not compile\<close>

text \<open>
  Claim C4, on the failing input. The from-pattern \<^verbatim>\<open>(\<close> of the action's string
  trigger does not compile: \<open>regcomp\<close> answers 8. The source tests \<^verbatim>\<open>ret < 0\<close>, so
  the rule counts as valid: after \<open>sane_find_matching_options\<close> the rule count has grown
  from 0 to 1 and slot 0 holds the rule with that pattern.
\<close>

theorem failed_regcomp_rule_installed:
  "regcomp sample_externals ''('' = 8
   \<and> count_of (sane_find_matching_options sample_externals [unbalanced_action]
        (allocated_thread 6) (sample_device [string_reply ''idle''])) = 1
   \<and> take 1 (opts_of (sane_find_matching_options sample_externals [unbalanced_action]
        (allocated_thread 6) (sample_device [string_reply ''idle'']))) =
      [\<lparr>number = 5,
        from_value = \<lparr>num_value = 0, str = Some ''('', reg = Some ''(''\<rparr>,
        to_value = \<lparr>num_value = 0, str = Some ''^scan$'', reg = Some ''^scan$''\<rparr>,
        opt_value = \<lparr>num_value = hash ''idle'', str = Some ''idle'', reg = None\<rparr>,
        script = Some ''/tmp/s.sh'', action_name = Some ''scan''\<rparr>]"
  by code_simp

section \<open>Function rules that share an option with an action rule\<close>

text \<open>
  Claim C5, on the failing input. The function rule and the action rule are both on
  option 3. The reading 1 fires the rule from 0 to 1 and is stored as the rule's value,
  but the environment entry of the function is formatted from the initialised value:
  the trigger signal carries \<^verbatim>\<open>SCANBD_FUNCTION=0\<close>.
\<close>

theorem shared_function_value_not_reused:
  "trigger_signals (log_of (poll_option sample_externals 0
      (polling_thread [numeric_rule 3 0 1 0 ''/tmp/s.sh'']
         [\<lparr>fun_number = 3, env = Some ''SCANBD_FUNCTION''\<rparr>])
      (sample_device [numeric_reply 1]))) =
     [Some ''SCANBD_FUNCTION=0'' # sample_environment]
   \<and> opts_of (poll_option sample_externals 0
      (polling_thread [numeric_rule 3 0 1 0 ''/tmp/s.sh'']
         [\<lparr>fun_number = 3, env = Some ''SCANBD_FUNCTION''\<rparr>])
      (sample_device [numeric_reply 1])) =
        [numeric_rule 3 0 1 1 ''/tmp/s.sh'']"
  by (simp add: poll_defs sample_defs dispatch_defs function_entry_def printf_lu_0
      sample_environment_def replicate_8 log_of_def opts_of_def)

section \<open>Failed reads\<close>





section \<open>The device is closed while the script runs\<close>

lemma release_device_events:
  "events (snd (release_device envp st w)) = events w @
     [(Dbus_signal SCANBD_DBUS_SIGNAL_SCAN_BEGIN [Some (dev st)], h st),
      (Dbus_signal SCANBD_DBUS_SIGNAL_TRIGGER envp, h st),
      (Sane_close, h st)]"
  by (simp add: release_device_def)

lemma release_device_fork_fails:
  "fork_fails (snd (release_device envp st w)) = fork_fails w"
  by (simp add: release_device_def)

lemma run_script_events:
  assumes "h st = None"
  shows "events (snd (run_script x script_abs envp st w)) = events w @
     [(Mutex_unlock, None)] @ child_events x script_abs envp w @
     [(Mutex_lock, None), (Cond_broadcast, None), (Mutex_unlock, None), (Usleep, None),
      (Dbus_signal SCANBD_DBUS_SIGNAL_SCAN_END [Some (dev st)], None), (Mutex_lock, None)]"
  using assms by (simp add: run_script_def child_events_def Let_def)

lemma reopen_device_events:
  "reopen_device st w = Inr (st', w') \<Longrightarrow> events w' = events w @ [(Sane_open, h st)]"
  by (auto simp: reopen_device_def Let_def split: if_splits)

text \<open>
  Claim C7. Whenever the dispatcher has built its environment and passed its assertions,
  it goes on to the reopen with a log that continues as follows: the two bus signals and
  \<^verbatim>\<open>sane_close\<close> with the handle as it was; then, all with a null handle, the release
  of the slot's mutex, the sleep, the fork and the wait for the child (when there is a
  script to run), the lock, the broadcast, the unlock, the sleep, the end signal and the
  lock. \<^verbatim>\<open>sane_open\<close> is called only after that, still with a null handle in the slot.
\<close>

theorem device_closed_during_script:
  assumes "build_environment x odesc st w = Inr (envp, w1)"
    and "0 \<le> triggered_option st"
    and "triggered_option st < int (num_of_options_with_scripts st)"
    and "num_of_options_with_scripts st \<le> length (opts st)"
    and "script (opts st ! nat (triggered_option st)) = Some s" and "s \<noteq> []"
  shows "\<exists>w3. dispatch x odesc st w =
             reopen_device (st\<lparr>h := None, triggered := False, triggered_option := - 1\<rparr>) w3 \<and>
           events w3 = events w1 @
             [(Dbus_signal SCANBD_DBUS_SIGNAL_SCAN_BEGIN [Some (dev st)], h st),
              (Dbus_signal SCANBD_DBUS_SIGNAL_TRIGGER envp, h st),
              (Sane_close, h st),
              (Mutex_unlock, None)] @
             child_events x (make_script_path_abs x s) envp w1 @
             [(Mutex_lock, None), (Cond_broadcast, None), (Mutex_unlock, None), (Usleep, None),
              (Dbus_signal SCANBD_DBUS_SIGNAL_SCAN_END [Some (dev st)], None),
              (Mutex_lock, None)] \<and>
           (log_of (dispatch x odesc st w) = [] \<or>
            log_of (dispatch x odesc st w) = events w3 @ [(Sane_open, None)])"
proof -
  obtain st2 w2 where rd: "release_device envp st w1 = (st2, w2)"
    by (cases "release_device envp st w1")
  have st2: "st2 = st\<lparr>h := None\<rparr>"
    using release_device_state [of envp st w1] rd by simp
  have w2: "events w2 = events w1 @
     [(Dbus_signal SCANBD_DBUS_SIGNAL_SCAN_BEGIN [Some (dev st)], h st),
      (Dbus_signal SCANBD_DBUS_SIGNAL_TRIGGER envp, h st),
      (Sane_close, h st)]"
    using release_device_events [of envp st w1] rd by simp
  have ff: "fork_fails w2 = fork_fails w1"
    using release_device_fork_fails [of envp st w1] rd by simp
  obtain st3 w3 where rs: "run_script x (make_script_path_abs x s) envp st2 w2 = (st3, w3)"
    by (cases "run_script x (make_script_path_abs x s) envp st2 w2")
  have st3: "st3 = st\<lparr>h := None, triggered := False, triggered_option := - 1\<rparr>"
    using run_script_state [of x "make_script_path_abs x s" envp st2 w2] rs st2 by simp
  have w3: "events w3 = events w2 @
     [(Mutex_unlock, None)] @ child_events x (make_script_path_abs x s) envp w2 @
     [(Mutex_lock, None), (Cond_broadcast, None), (Mutex_unlock, None), (Usleep, None),
      (Dbus_signal SCANBD_DBUS_SIGNAL_SCAN_END [Some (dev st)], None), (Mutex_lock, None)]"
    using run_script_events [of st2 x "make_script_path_abs x s" envp w2] rs st2 by simp
  have d: "dispatch x odesc st w = reopen_device st3 w3"
    using assms rd rs st2 by (simp add: dispatch_def)
  have "log_of (reopen_device st3 w3) = [] \<or>
        log_of (reopen_device st3 w3) = events w3 @ [(Sane_open, None)]"
  proof (cases "reopen_device st3 w3")
    case (Inl err)
    then show ?thesis by (simp add: log_of_def)
  next
    case (Inr p)
    then obtain st' w' where "reopen_device st3 w3 = Inr (st', w')"
      by (cases p) simp
    from reopen_device_events [OF this] this st3 show ?thesis
      by (simp add: log_of_def)
  qed
  moreover have "child_events x (make_script_path_abs x s) envp w2 =
      child_events x (make_script_path_abs x s) envp w1"
    by (simp add: child_events_def ff)
  ultimately show ?thesis
    using d st3 w3 w2 by auto
qed

theorem device_closed_during_script_witness:
  "build_environment sample_externals button_descriptor fired_thread (sample_device []) =
     Inr (Some ''SCANBD_FUNCTION=0'' # sample_environment, sample_device [])
   \<and> script (opts fired_thread ! nat (triggered_option fired_thread)) = Some ''/tmp/s.sh''
   \<and> log_of (dispatch sample_externals button_descriptor fired_thread (sample_device [])) =
     [(Dbus_signal SCANBD_DBUS_SIGNAL_SCAN_BEGIN [Some ''dev0''], Some ()),
      (Dbus_signal SCANBD_DBUS_SIGNAL_TRIGGER
         (Some ''SCANBD_FUNCTION=0'' # sample_environment), Some ()),
      (Sane_close, Some ()), (Mutex_unlock, None), (Usleep, None),
      (Fork ''/tmp/s.sh'' (Some ''SCANBD_FUNCTION=0'' # sample_environment), None),
      (Waitpid, None), (Mutex_lock, None), (Cond_broadcast, None), (Mutex_unlock, None),
      (Usleep, None), (Dbus_signal SCANBD_DBUS_SIGNAL_SCAN_END [Some ''dev0''], None),
      (Mutex_lock, None), (Sane_open, None)]"
proof -
  have s: "script (opts fired_thread ! nat (triggered_option fired_thread)) = Some ''/tmp/s.sh''"
    by (simp add: fired_thread_def polling_thread_def numeric_rule_def)
  have t: "0 \<le> triggered_option fired_thread"
    "triggered_option fired_thread < int (num_of_options_with_scripts fired_thread)"
    "num_of_options_with_scripts fired_thread \<le> length (opts fired_thread)"
    by (simp_all add: fired_thread_def polling_thread_def)
  have n: "''/tmp/s.sh'' \<noteq> []"
    by simp
  from device_closed_during_script [OF sample_build_environment [of "[]"] t s n]
    sample_dispatch_log sample_build_environment [of "[]"] s
  show ?thesis
    by simp
qed

section \<open>One query per option and pass\<close>

lemma find_upt_Some:
  "find P [0..<m] = Some j \<longleftrightarrow> j < m \<and> P j \<and> (\<forall>i < j. \<not> P i)"
  by (auto simp: find_Some_iff)

lemma find_upt_None: "find P [0..<m] = None \<longleftrightarrow> (\<forall>i < m. \<not> P i)"
  by (auto simp: find_None_iff)

lemma get_sane_option_value_reg: "reg (fst (get_sane_option_value hdl n w)) = None"
  by (auto simp: get_sane_option_value_def sane_option_value_init_def Let_def
      split: option.splits prod.splits)

lemma got_already_cong:
  assumes "\<forall>k \<le> si. number (opts st' ! k) = number (opts st ! k)"
  shows "got_already st' si = got_already st si"
proof -
  have "find (\<lambda>k. number (opts st' ! k) = number (opts st' ! si)) [0..<si] =
        find (\<lambda>k. number (opts st ! k) = number (opts st ! si)) [0..<si]"
    using assms by (intro find_cong) auto
  then show ?thesis by (simp add: got_already_def)
qed

lemma poll_option_value:
  assumes "poll_option x si st w = Inr (st', w')"
    and "script (opts st ! si) \<noteq> None" and "script (opts st ! si) \<noteq> Some []"
  shows "opts st' = (opts st)[si := (opts st ! si)\<lparr>opt_value := fst (current_value si st w)\<rparr>]"
proof -
  from poll_option_InrD [OF assms(1)] assms(2,3) obtain fire where
    "(\<exists>odesc w2. dispatch x odesc (checked fire si (fst (current_value si st w)) st) w2 =
        Inr (st', w')) \<or> st' = checked fire si (fst (current_value si st w)) st"
    by (auto split: if_splits)
  then have "opts st' = opts (checked fire si (fst (current_value si st w)) st)"
    by (auto dest!: dispatch_state)
  then show ?thesis by (simp add: checked_def)
qed

lemma got_already_first:
  assumes "got_already st si = Some j"
  shows "j < si \<and> number (opts st ! j) = number (opts st ! si) \<and> got_already st j = None"
proof -
  from assms have j: "j < si" "number (opts st ! j) = number (opts st ! si)"
    "\<forall>i < j. number (opts st ! i) \<noteq> number (opts st ! si)"
    by (simp_all add: got_already_def find_upt_Some)
  then have "got_already st j = None"
    by (simp add: got_already_def find_upt_None)
  with j show ?thesis by simp
qed

lemma copy_value:
  assumes "reg v = None"
  shows "sane_option_value_init\<lparr>num_value := num_value v, str := str v\<rparr> = v"
  using assms by (simp add: sane_option_value_init_def)

lemma polled_step:
  assumes step: "poll_option x i sti wi = Inr (st1, w1)"
    and inv: "polled st i (opts sti)"
    and i: "i < length (opts st)"
    and scr: "script (opts st ! i) \<noteq> None" "script (opts st ! i) \<noteq> Some []"
  shows "polled st (Suc i) (opts st1)"
proof -
  let ?os = "opts sti"
  let ?v = "fst (current_value i sti wi)"
  from inv have len: "length ?os = length (opts st)"
    and same: "\<forall>k < length ?os. number (?os ! k) = number (opts st ! k) \<and>
        script (?os ! k) = script (opts st ! k)"
    and old: "\<forall>k < i. reg (opt_value (?os ! k)) = None \<and> reused st ?os k"
    by (simp_all add: polled_def)
  from same i len have scr': "script (?os ! i) \<noteq> None" "script (?os ! i) \<noteq> Some []"
    using scr by simp_all
  have os1: "opts st1 = ?os[i := (?os ! i)\<lparr>opt_value := ?v\<rparr>]"
    by (rule poll_option_value [OF step scr'])
  have ga: "got_already sti i = got_already st i"
    using same i len by (intro got_already_cong) simp
  have num_i: "number (?os ! i) = number (opts st ! i)"
    using same i len by simp
  have new: "reg ?v = None \<and> reused st (opts st1) i"
  proof (cases "got_already st i")
    case None
    then have v: "?v = fst (get_sane_option_value (h sti) (number (opts st ! i)) wi)"
      using ga num_i by (simp add: current_value_def)
    then have "reg ?v = None"
      by (simp add: get_sane_option_value_reg)
    moreover have "reused st (opts st1) i"
      unfolding reused_def None os1 using i len v by auto
    ultimately show ?thesis by simp
  next
    case (Some j)
    from got_already_first [OF Some] have j: "j < i"
      "number (opts st ! j) = number (opts st ! i)" "got_already st j = None"
      by simp_all
    from old j(1) have rj: "reg (opt_value (?os ! j)) = None"
      by simp
    have v: "?v = opt_value (?os ! j)"
      using ga Some copy_value [OF rj] by (simp add: current_value_def)
    have "reused st (opts st1) i"
      unfolding reused_def Some os1 using i len j v by simp
    with v rj show ?thesis by simp
  qed
  have kept: "reused st (opts st1) k" if "k < i" for k
  proof -
    from old that have r: "reused st ?os k" by simp
    show ?thesis
    proof (cases "got_already st k")
      case None
      with r that show ?thesis
        unfolding reused_def os1 by simp
    next
      case (Some j)
      from got_already_first [OF Some] have "j < k" by simp
      with r that Some show ?thesis
        unfolding reused_def os1 by simp
    qed
  qed
  show ?thesis
    unfolding polled_def
  proof (intro conjI allI impI)
    show "length (opts st1) = length (opts st)"
      using len os1 by simp
  next
    fix k assume "k < length (opts st1)"
    then show "number (opts st1 ! k) = number (opts st ! k)"
      and "script (opts st1 ! k) = script (opts st ! k)"
      using same os1 i len by (auto simp: nth_list_update)
  next
    fix k assume k: "k < Suc i"
    show "reg (opt_value (opts st1 ! k)) = None"
    proof (cases "k = i")
      case True
      with new i len os1 show ?thesis by simp
    next
      case False
      with k old os1 show ?thesis by simp
    qed
    show "reused st (opts st1) k"
    proof (cases "k = i")
      case True
      with new show ?thesis by simp
    next
      case False
      with k kept show ?thesis by simp
    qed
  qed
qed

lemma polled_run:
  assumes "poll_options x [i..<n] sti wi = Inr (st', w')"
    and "polled st i (opts sti)"
    and "n \<le> length (opts st)"
    and "\<forall>k < n. script (opts st ! k) \<noteq> None \<and> script (opts st ! k) \<noteq> Some []"
    and "i \<le> n"
  shows "polled st n (opts st')"
  using assms
proof (induction "n - i" arbitrary: i sti wi)
  case 0
  then show ?case by simp
next
  case (Suc d)
  then have i: "i < n" by simp
  then have upt: "[i..<n] = i # [Suc i..<n]"
    by (rule upt_conv_Cons)
  from Suc.prems(1) obtain st1 w1 where
    step: "poll_option x i sti wi = Inr (st1, w1)" and
    rest: "poll_options x [Suc i..<n] st1 w1 = Inr (st', w')"
    unfolding upt by (auto split: sum.splits)
  have "polled st (Suc i) (opts st1)"
    using polled_step [OF step Suc.prems(2)] i Suc.prems(3,4) by simp
  moreover have "d = n - Suc i"
    using Suc.hyps(2) by simp
  ultimately show ?case
    using Suc.hyps(1) [OF _ rest] Suc.prems(3,4) i by simp
qed

lemma polled_start: "polled st 0 (opts st)"
  by (simp add: polled_def)

lemma find_slot_le: "find_slot multi st opt \<le> num_of_options_with_scripts st"
  by (auto simp: find_slot_def find_Some_iff split: option.splits)

lemma install_action_shape:
  assumes "install_action x action_i opt st w = Inr (st', w')"
    and "SCANBD_NULL_STRING x \<noteq> []"
  shows "st' = st \<or>
    (find_slot (multiple_actions x) st opt < length (opts st) \<and>
     length (opts st') = length (opts st) \<and>
     (\<forall>k. k \<noteq> find_slot (multiple_actions x) st opt \<longrightarrow> opts st' ! k = opts st ! k) \<and>
     script (opts st' ! find_slot (multiple_actions x) st opt) \<noteq> None \<and>
     script (opts st' ! find_slot (multiple_actions x) st opt) \<noteq> Some [] \<and>
     (num_of_options_with_scripts st' = num_of_options_with_scripts st \<or>
      find_slot (multiple_actions x) st opt = num_of_options_with_scripts st \<and>
      num_of_options_with_scripts st' = Suc (num_of_options_with_scripts st)))"
  using assms
  by (auto simp: install_action_def count_installed_def Let_def
      split: option.splits if_splits prod.splits)

lemma install_action_installed:
  assumes "install_action x action_i opt st w = Inr (st', w')"
    and "SCANBD_NULL_STRING x \<noteq> []"
    and "installed st"
  shows "installed st'"
proof -
  let ?n = "find_slot (multiple_actions x) st opt"
  from install_action_shape [OF assms(1,2)] consider "st' = st"
    | "?n < length (opts st)" "length (opts st') = length (opts st)"
      "\<forall>k. k \<noteq> ?n \<longrightarrow> opts st' ! k = opts st ! k"
      "script (opts st' ! ?n) \<noteq> None" "script (opts st' ! ?n) \<noteq> Some []"
      "num_of_options_with_scripts st' = num_of_options_with_scripts st \<or>
       ?n = num_of_options_with_scripts st \<and>
       num_of_options_with_scripts st' = Suc (num_of_options_with_scripts st)"
    by blast
  then show ?thesis
  proof cases
    case 1
    with assms(3) show ?thesis by simp
  next
    case 2
    show ?thesis
      unfolding installed_def
    proof (intro conjI allI impI)
      show "num_of_options_with_scripts st' \<le> length (opts st')"
        using 2(1,2,6) assms(3) by (auto simp: installed_def)
    next
      fix k assume k: "k < num_of_options_with_scripts st'"
      show "script (opts st' ! k) \<noteq> None"
      proof (cases "k = ?n")
        case True
        with 2(4) show ?thesis by simp
      next
        case False
        with 2(3,6) k assms(3) show ?thesis
          by (auto simp: installed_def less_Suc_eq)
      qed
      show "script (opts st' ! k) \<noteq> Some []"
      proof (cases "k = ?n")
        case True
        with 2(5) show ?thesis by simp
      next
        case False
        with 2(3,6) k assms(3) show ?thesis
          by (auto simp: installed_def less_Suc_eq)
      qed
    qed
  qed
qed

lemma install_action_options_installed:
  assumes "install_action_options x action_i os st w = Inr (st', w')"
    and "SCANBD_NULL_STRING x \<noteq> []"
    and "installed st"
  shows "installed st'"
  using assms
proof (induction os arbitrary: st w)
  case Nil
  then show ?case by simp
next
  case (Cons opt os)
  from Cons.prems(1) obtain st1 w1 where
    step: "install_action x action_i opt st w = Inr (st1, w1)" and
    rest: "install_action_options x action_i os st1 w1 = Inr (st', w')"
    by (auto split: sum.splits)
  from Cons.IH [OF rest Cons.prems(2) install_action_installed [OF step Cons.prems(2,3)]]
  show ?case .
qed

lemma sane_find_matching_options_installed:
  assumes "sane_find_matching_options x actions st w = Inr (st', w')"
    and "SCANBD_NULL_STRING x \<noteq> []"
    and "installed st"
  shows "installed st'"
  using assms
proof (induction actions arbitrary: st w)
  case Nil
  then show ?case by simp
next
  case (Cons action_i actions)
  show ?case
  proof (cases "regcomp x (action_filter action_i) < 0")
    case True
    with Cons.prems(1) have "sane_find_matching_options x actions st w = Inr (st', w')"
      by (simp split: if_splits)
    from Cons.IH [OF this Cons.prems(2,3)] show ?thesis .
  next
    case False
    with Cons.prems(1) obtain st1 w1 where
      step: "install_action_options x action_i [1..<num_of_options st] st w = Inr (st1, w1)" and
      rest: "sane_find_matching_options x actions st1 w1 = Inr (st', w')"
      by (auto split: sum.splits)
    from Cons.IH [OF rest Cons.prems(2)
        install_action_options_installed [OF step Cons.prems(2,3)]]
    show ?thesis .
  qed
qed

lemma allocated_thread_installed: "installed (allocated_thread n)"
  by (simp add: installed_def allocated_thread_def)

text \<open>
  Claim C8. In a pass over the installed rules that goes through, the value stored for a
  rule with no earlier rule on the same option number is a value returned by
  \<open>get_sane_option_value\<close> for that option, and the value stored for any other rule
  equals the one stored for the first rule on its option number. In any state, the value
  of a rule is computed by a call of \<open>get_sane_option_value\<close> when no earlier rule has
  the option number, and otherwise it is the copy of the number and the string stored for
  the first such rule, and the device is left as it was. The rules are \<open>installed\<close>,
  as the rule compiler leaves them (\<open>sane_find_matching_options_installed\<close>).
\<close>

theorem option_value_reused_in_round:
  "(poll_options x [0..<num_of_options_with_scripts st] st w = Inr (st', w') \<and>
    installed st \<longrightarrow>
      (\<forall>si < num_of_options_with_scripts st. reused st (opts st') si))
   \<and> (got_already sti si = None \<longrightarrow>
         current_value si sti wi =
           get_sane_option_value (h sti) (number (opts sti ! si)) wi)
   \<and> (got_already sti si = Some k \<longrightarrow>
         current_value si sti wi =
           (sane_option_value_init\<lparr>num_value := num_value (opt_value (opts sti ! k)),
              str := str (opt_value (opts sti ! k))\<rparr>, wi))"
proof (intro conjI impI)
  assume a: "poll_options x [0..<num_of_options_with_scripts st] st w = Inr (st', w') \<and>
    installed st"
  then have "polled st (num_of_options_with_scripts st) (opts st')"
    by (intro polled_run [of x 0 _ st w st' w' st] polled_start)
      (simp_all add: installed_def)
  then show "\<forall>si < num_of_options_with_scripts st. reused st (opts st') si"
    by (simp add: polled_def)
qed (simp_all add: current_value_def)

theorem option_value_reused_in_round_witness:
  "opts_of (poll_options sample_externals [0..<2]
     (polling_thread [numeric_rule 3 0 1 0 ''/tmp/a.sh'', numeric_rule 3 0 1 0 ''/tmp/b.sh''] [])
     (sample_device [numeric_reply 1])) =
     [numeric_rule 3 0 1 1 ''/tmp/a.sh'', numeric_rule 3 0 1 1 ''/tmp/b.sh'']
   \<and> queries (log_of (poll_options sample_externals [0..<2]
     (polling_thread [numeric_rule 3 0 1 0 ''/tmp/a.sh'', numeric_rule 3 0 1 0 ''/tmp/b.sh''] [])
     (sample_device [numeric_reply 1]))) = [3]
   \<and> spawns (log_of (poll_options sample_externals [0..<2]
     (polling_thread [numeric_rule 3 0 1 0 ''/tmp/a.sh'', numeric_rule 3 0 1 0 ''/tmp/b.sh''] [])
     (sample_device [numeric_reply 1]))) = [''/tmp/a.sh'', ''/tmp/b.sh'']
   \<and> reused
     (polling_thread [numeric_rule 3 0 1 0 ''/tmp/a.sh'', numeric_rule 3 0 1 0 ''/tmp/b.sh''] [])
     [numeric_rule 3 0 1 1 ''/tmp/a.sh'', numeric_rule 3 0 1 1 ''/tmp/b.sh''] 1"
proof -
  have i: "installed (polling_thread
      [numeric_rule 3 0 1 0 ''/tmp/a.sh'', numeric_rule 3 0 1 0 ''/tmp/b.sh''] [])"
    by (simp add: installed_def polling_thread_def numeric_rule_def less_Suc_eq numeral_2_eq_2)
  have n: "num_of_options_with_scripts (polling_thread
      [numeric_rule 3 0 1 0 ''/tmp/a.sh'', numeric_rule 3 0 1 0 ''/tmp/b.sh''] []) = 2"
    by (simp add: polling_thread_def)
  from option_value_reused_in_round [of sample_externals
      "polling_thread [numeric_rule 3 0 1 0 ''/tmp/a.sh'', numeric_rule 3 0 1 0 ''/tmp/b.sh''] []"
      "sample_device [numeric_reply 1]"] two_actions_round i n
  have "reused
     (polling_thread [numeric_rule 3 0 1 0 ''/tmp/a.sh'', numeric_rule 3 0 1 0 ''/tmp/b.sh''] [])
     (opts (polling_thread
          [numeric_rule 3 0 1 1 ''/tmp/a.sh'', numeric_rule 3 0 1 1 ''/tmp/b.sh''] [])) 1"
    by simp
  then show ?thesis
    unfolding two_actions_round
    by (simp add: log_of_def opts_of_def polling_thread_def)
qed

section \<open>The layout of the environment\<close>

lemma function_entry_update:
  assumes "function_entry x odesc st e envp w = Inr (envp', w')"
  shows "\<exists>s. envp' = envp[e := Some s]"
  using assms
  by (auto simp: function_entry_def split: if_splits option.splits prod.splits)

lemma function_entries_Some:
  assumes "function_entries x odesc st es envp w = Inr (envp', w')"
    and "None \<notin> set envp"
  shows "length envp' = length envp \<and> None \<notin> set envp'"
  using assms
proof (induction es arbitrary: envp w)
  case Nil
  then show ?case by simp
next
  case (Cons e es)
  from Cons.prems(1) obtain envp1 w1 where
    step: "function_entry x odesc st e envp w = Inr (envp1, w1)" and
    rest: "function_entries x odesc st es envp1 w1 = Inr (envp', w')"
    by (auto split: sum.splits)
  from function_entry_update [OF step] obtain s where e1: "envp1 = envp[e := Some s]"
    by blast
  have "set envp1 \<subseteq> insert (Some s) (set envp)"
    unfolding e1 by (rule set_update_subset_insert)
  with Cons.prems(2) have "None \<notin> set envp1"
    by auto
  from Cons.IH [OF rest this] e1 show ?case
    by simp
qed

lemma put_env_eq:
  "put_env ev val (envp, e) = (envp[e := Some (snprintf_NAME_MAX (ev @ ''='' @ val))], Suc e)"
  by (simp add: put_env_def)

lemma entry_PATH_cases:
  "\<exists>val. entry_PATH x (envp, e) = put_env ''PATH'' val (envp, e)"
  by (cases "getenv x ''PATH''") (auto simp: entry_PATH_def)

lemma entry_PWD_cases:
  "entry_PWD x (envp, e) = (envp, e) \<or>
   (\<exists>val. entry_PWD x (envp, e) = put_env ''PWD'' val (envp, e))"
  by (cases "getenv x ''PWD''"; cases "getcwd x") (auto simp: entry_PWD_def)

lemma entry_USER_cases:
  "entry_USER x (envp, e) = Inr p \<Longrightarrow> \<exists>val. p = put_env ''USER'' val (envp, e)"
  by (cases "getenv x ''USER''"; cases "getpwuid x") (auto simp: entry_USER_def)

lemma entry_HOME_cases:
  "entry_HOME x (envp, e) = Inr p \<Longrightarrow> \<exists>val. p = put_env ''HOME'' val (envp, e)"
  by (cases "getenv x ''HOME''"; cases "getpwuid x") (auto simp: entry_HOME_def)

lemma entry_device_cases:
  "entry_device x st (envp, e) = (envp, e) \<or>
   (\<exists>ev. env_device x = Some ev \<and> entry_device x st (envp, e) = put_env ev (dev st) (envp, e))"
  by (cases "env_device x") (auto simp: entry_device_def)

lemma entry_action_cases:
  "entry_action x st (envp, e) = (envp, e) \<or>
   (\<exists>ev. env_action x = Some ev \<and> entry_action x st (envp, e) =
      put_env ev (printf_s (action_name (opts st ! nat (triggered_option st)))) (envp, e))"
  by (cases "env_action x") (auto simp: entry_action_def)

lemma fixed_entries_full:
  assumes "fixed_entries x st (envp, n) = Inr (envp', e)"
    and "e = n + 6"
  shows "\<exists>path pwd user home dname aname.
      env_device x = Some dname \<and> env_action x = Some aname \<and>
      envp' = envp[n := Some (snprintf_NAME_MAX (''PATH='' @ path)),
                   n + 1 := Some (snprintf_NAME_MAX (''PWD='' @ pwd)),
                   n + 2 := Some (snprintf_NAME_MAX (''USER='' @ user)),
                   n + 3 := Some (snprintf_NAME_MAX (''HOME='' @ home)),
                   n + 4 := Some (snprintf_NAME_MAX (dname @ ''='' @ dev st)),
                   n + 5 := Some (snprintf_NAME_MAX (aname @ ''='' @
                      printf_s (action_name (opts st ! nat (triggered_option st)))))]"
proof -
  obtain path where p1: "entry_PATH x (envp, n) =
      (envp[n := Some (snprintf_NAME_MAX (''PATH='' @ path))], n + 1)"
    using entry_PATH_cases [of x envp n] by (auto simp: put_env_eq)
  obtain e2 l2 where p2: "entry_PWD x (entry_PATH x (envp, n)) = (l2, e2)"
    by (cases "entry_PWD x (entry_PATH x (envp, n))")
  have c2: "(l2 = envp[n := Some (snprintf_NAME_MAX (''PATH='' @ path))] \<and> e2 = n + 1) \<or>
        (\<exists>pwd. l2 = envp[n := Some (snprintf_NAME_MAX (''PATH='' @ path)),
                 n + 1 := Some (snprintf_NAME_MAX (''PWD='' @ pwd))] \<and> e2 = n + 2)"
    using entry_PWD_cases [of x "envp[n := Some (snprintf_NAME_MAX (''PATH='' @ path))]" "n + 1"]
      p2 unfolding p1 by (auto simp: put_env_eq)
  from assms(1) obtain p3 p4 where
    u: "entry_USER x (l2, e2) = Inr p3" and
    hm: "entry_HOME x p3 = Inr p4" and
    fin: "entry_action x st (entry_device x st p4) = (envp', e)"
    unfolding fixed_entries_def p2 by (auto split: sum.splits)
  from entry_USER_cases [OF u] obtain user where
    p3: "p3 = (l2[e2 := Some (snprintf_NAME_MAX (''USER='' @ user))], Suc e2)"
    by (auto simp: put_env_eq)
  from entry_HOME_cases [OF hm [unfolded p3]] obtain home where
    p4: "p4 = (l2[e2 := Some (snprintf_NAME_MAX (''USER='' @ user)),
               Suc e2 := Some (snprintf_NAME_MAX (''HOME='' @ home))], Suc (Suc e2))"
    by (auto simp: put_env_eq)
  obtain l5 e5 where p5: "entry_device x st p4 = (l5, e5)"
    by (cases "entry_device x st p4")
  have c5: "(l5 = fst p4 \<and> e5 = Suc (Suc e2)) \<or>
      (\<exists>dname. env_device x = Some dname \<and>
         l5 = (fst p4)[Suc (Suc e2) := Some (snprintf_NAME_MAX (dname @ ''='' @ dev st))] \<and>
         e5 = Suc (Suc (Suc e2)))"
    using entry_device_cases [of x st "fst p4" "Suc (Suc e2)"] p5 unfolding p4
    by (auto simp: put_env_eq)
  have c6: "(envp' = l5 \<and> e = e5) \<or>
      (\<exists>aname. env_action x = Some aname \<and>
         envp' = l5[e5 := Some (snprintf_NAME_MAX (aname @ ''='' @
                      printf_s (action_name (opts st ! nat (triggered_option st)))))] \<and>
         e = Suc e5)"
    using entry_action_cases [of x st l5 e5] fin unfolding p5
    by (auto simp: put_env_eq)
  from c2 c5 c6 assms(2) have e2: "e2 = n + 2" and e5: "e5 = n + 5"
    by auto
  from c2 e2 obtain pwd where l2: "l2 = envp[n := Some (snprintf_NAME_MAX (''PATH='' @ path)),
                 n + 1 := Some (snprintf_NAME_MAX (''PWD='' @ pwd))]"
    by auto
  from c5 e5 e2 obtain dname where dn: "env_device x = Some dname"
    "l5 = (fst p4)[Suc (Suc e2) := Some (snprintf_NAME_MAX (dname @ ''='' @ dev st))]"
    by auto
  from c6 e5 assms(2) obtain aname where an: "env_action x = Some aname"
    "envp' = l5[e5 := Some (snprintf_NAME_MAX (aname @ ''='' @
                      printf_s (action_name (opts st ! nat (triggered_option st)))))]"
    by auto
  have "envp' = envp[n := Some (snprintf_NAME_MAX (''PATH='' @ path)),
                   n + 1 := Some (snprintf_NAME_MAX (''PWD='' @ pwd)),
                   n + 2 := Some (snprintf_NAME_MAX (''USER='' @ user)),
                   n + 3 := Some (snprintf_NAME_MAX (''HOME='' @ home)),
                   n + 4 := Some (snprintf_NAME_MAX (dname @ ''='' @ dev st)),
                   n + 5 := Some (snprintf_NAME_MAX (aname @ ''='' @
                      printf_s (action_name (opts st ! nat (triggered_option st)))))]"
    unfolding an(2) dn(2) p4 l2 e2 e5 by (simp add: numeral_eq_Suc)
  with dn(1) an(1) show ?thesis
    by blast
qed

lemma drop_updates7:
  assumes "length xs = n + 7"
  shows "drop n (xs[n := a, n + 1 := b, n + 2 := c, n + 3 := d, n + 4 := e, n + 5 := f,
            n + 6 := g]) = [a, b, c, d, e, f, g]"
proof (rule nth_equalityI)
  show "length (drop n (xs[n := a, n + 1 := b, n + 2 := c, n + 3 := d, n + 4 := e, n + 5 := f,
            n + 6 := g])) = length [a, b, c, d, e, f, g]"
    using assms by simp
next
  fix i
  assume "i < length (drop n (xs[n := a, n + 1 := b, n + 2 := c, n + 3 := d, n + 4 := e,
            n + 5 := f, n + 6 := g]))"
  with assms have "i < 7" by simp
  then consider "i = 0" | "i = 1" | "i = 2" | "i = 3" | "i = 4" | "i = 5" | "i = 6"
    by linarith
  then show "drop n (xs[n := a, n + 1 := b, n + 2 := c, n + 3 := d, n + 4 := e, n + 5 := f,
            n + 6 := g]) ! i = [a, b, c, d, e, f, g] ! i"
    using assms by cases (simp_all add: nth_list_update)
qed

lemma take_updates7:
  "take n (xs[n := a, n + 1 := b, n + 2 := c, n + 3 := d, n + 4 := e, n + 5 := f,
            n + 6 := g]) = take n xs"
  by simp

lemma build_environment_InrD:
  assumes "build_environment x odesc st w = Inr (envp, w')"
  shows "\<exists>env1 env2. function_entries x odesc st [0..<num_of_options_with_functions st]
             (replicate (number_of_envs st) (Some [])) w = Inr (env1, w') \<and>
           fixed_entries x st (env1, num_of_options_with_functions st) =
             Inr (env2, num_of_options_with_functions st + 6) \<and>
           envp = env2[num_of_options_with_functions st + 6 := None]"
  using assms
  by (auto simp: build_environment_def number_of_envs_def add.commute
      split: sum.splits prod.splits if_splits)

text \<open>
  Claim C9. An environment that the dispatcher has assembled has \<open>F + 6 + 1\<close> entries,
  \<open>F\<close> being the number of function rules: the last one is the null sentinel, none
  before it is null, and after the \<open>F\<close> function entries come \<^verbatim>\<open>PATH\<close>, \<^verbatim>\<open>PWD\<close>,
  \<^verbatim>\<open>USER\<close>, \<^verbatim>\<open>HOME\<close>, the configured device variable with the device name and
  the configured action variable with the title of the triggered action.
\<close>

theorem environment_layout:
  assumes "build_environment x odesc st w = Inr (envp, w')"
  shows "length envp = num_of_options_with_functions st + 6 + 1 \<and>
         last envp = None \<and> None \<notin> set (butlast envp) \<and>
         (\<exists>path pwd user home dname aname.
            env_device x = Some dname \<and> env_action x = Some aname \<and>
            drop (num_of_options_with_functions st) envp =
              [Some (snprintf_NAME_MAX (''PATH='' @ path)),
               Some (snprintf_NAME_MAX (''PWD='' @ pwd)),
               Some (snprintf_NAME_MAX (''USER='' @ user)),
               Some (snprintf_NAME_MAX (''HOME='' @ home)),
               Some (snprintf_NAME_MAX (dname @ ''='' @ dev st)),
               Some (snprintf_NAME_MAX (aname @ ''='' @
                  printf_s (action_name (opts st ! nat (triggered_option st))))),
               None])"
proof -
  let ?F = "num_of_options_with_functions st"
  from build_environment_InrD [OF assms] obtain env1 env2 where
    fe: "function_entries x odesc st [0..<?F] (replicate (number_of_envs st) (Some [])) w =
           Inr (env1, w')" and
    fx: "fixed_entries x st (env1, ?F) = Inr (env2, ?F + 6)" and
    envp: "envp = env2[?F + 6 := None]"
    by blast
  have "None \<notin> set (replicate (number_of_envs st) (Some ([] :: string)))"
    by auto
  from function_entries_Some [OF fe this] have
    len1: "length env1 = ?F + 7" and some1: "None \<notin> set env1"
    by (simp_all add: number_of_envs_def)
  from fixed_entries_full [OF fx] obtain path pwd user home dname aname where
    dn: "env_device x = Some dname" and an: "env_action x = Some aname" and
    env2: "env2 = env1[?F := Some (snprintf_NAME_MAX (''PATH='' @ path)),
                   ?F + 1 := Some (snprintf_NAME_MAX (''PWD='' @ pwd)),
                   ?F + 2 := Some (snprintf_NAME_MAX (''USER='' @ user)),
                   ?F + 3 := Some (snprintf_NAME_MAX (''HOME='' @ home)),
                   ?F + 4 := Some (snprintf_NAME_MAX (dname @ ''='' @ dev st)),
                   ?F + 5 := Some (snprintf_NAME_MAX (aname @ ''='' @
                      printf_s (action_name (opts st ! nat (triggered_option st)))))]"
    by blast
  have len: "length envp = ?F + 6 + 1"
    unfolding envp env2 using len1 by simp
  have dr: "drop ?F envp =
              [Some (snprintf_NAME_MAX (''PATH='' @ path)),
               Some (snprintf_NAME_MAX (''PWD='' @ pwd)),
               Some (snprintf_NAME_MAX (''USER='' @ user)),
               Some (snprintf_NAME_MAX (''HOME='' @ home)),
               Some (snprintf_NAME_MAX (dname @ ''='' @ dev st)),
               Some (snprintf_NAME_MAX (aname @ ''='' @
                  printf_s (action_name (opts st ! nat (triggered_option st))))),
               None]"
    unfolding envp env2 by (rule drop_updates7 [OF len1])
  have tk: "take ?F envp = take ?F env1"
    unfolding envp env2 by (rule take_updates7)
  have split: "envp = take ?F envp @ drop ?F envp"
    by simp
  have "last envp = last (drop ?F envp)"
    using len by simp
  then have lst: "last envp = None"
    unfolding dr by simp
  have "butlast envp = take ?F envp @ butlast (drop ?F envp)"
    by (subst split) (simp add: butlast_append dr del: append_take_drop_id)
  then have "set (butlast envp) \<subseteq> set env1 \<union> set (butlast (drop ?F envp))"
    unfolding tk by (auto dest: in_set_takeD)
  with some1 have nn: "None \<notin> set (butlast envp)"
    unfolding dr by auto
  from len lst nn dn an dr show ?thesis
    by blast
qed

theorem environment_layout_witness:
  "build_environment sample_externals button_descriptor fired_thread (sample_device []) =
     Inr (Some ''SCANBD_FUNCTION=0'' # sample_environment, sample_device [])
   \<and> length (Some ''SCANBD_FUNCTION=0'' # sample_environment) =
       num_of_options_with_functions fired_thread + 6 + 1
   \<and> last (Some ''SCANBD_FUNCTION=0'' # sample_environment) = None
   \<and> None \<notin> set (butlast (Some ''SCANBD_FUNCTION=0'' # sample_environment))"
  using environment_layout [OF sample_build_environment [of "[]"]]
    sample_build_environment [of "[]"]
  by simp

end
